theory Spec2Isabelle
  imports Main "HOL-Library.Multiset"
begin

section \<open>Values of the record file\<close>

text \<open>
  \<^verbatim>\<open>json.loads\<close> turns a line of \<^verbatim>\<open>table_tests.jsonl\<close> into a Python value:
  \<^verbatim>\<open>None\<close>, a \<^verbatim>\<open>bool\<close>, an \<^verbatim>\<open>int\<close>, a \<^verbatim>\<open>str\<close>, a \<^verbatim>\<open>list\<close> or a \<^verbatim>\<open>dict\<close>
  with string keys. A dict keeps the order in which its keys were inserted, so it is an
  association list. Numbers with a fraction or an exponent become Python floats; they are
  left out of this development.
\<close>

datatype json =
    JNull
  | JBool bool
  | JInt int
  | JStr string
  | JArr "json list"
  | JObj "(string \<times> json) list"

type_synonym pydict = "(string \<times> json) list"

text \<open>Truth value of a Python object, as \<^verbatim>\<open>if pdf_name:\<close> tests it.\<close>

fun truthy :: "json \<Rightarrow> bool" where
  "truthy JNull = False"
| "truthy (JBool b) = b"
| "truthy (JInt n) = (n \<noteq> 0)"
| "truthy (JStr s) = (s \<noteq> [])"
| "truthy (JArr xs) = (xs \<noteq> [])"
| "truthy (JObj kvs) = (kvs \<noteq> [])"

text \<open>Lists and dicts cannot be dictionary keys: using one raises \<^verbatim>\<open>TypeError\<close>.\<close>

fun hashable :: "json \<Rightarrow> bool" where
  "hashable (JArr xs) = False"
| "hashable (JObj kvs) = False"
| "hashable v = True"

text \<open>
  Python's \<^verbatim>\<open>==\<close> on these values: \<^verbatim>\<open>True == 1\<close> and \<^verbatim>\<open>False == 0\<close>, lists are
  compared element by element, dicts key by key whatever the order of the keys.
\<close>

fun bool_int :: "bool \<Rightarrow> int" where
  "bool_int True = 1"
| "bool_int False = 0"

fun py_eq :: "json \<Rightarrow> json \<Rightarrow> bool"
  and py_eq_list :: "json list \<Rightarrow> json list \<Rightarrow> bool"
  and py_eq_items :: "(string \<times> json) list \<Rightarrow> (string \<times> json) list \<Rightarrow> bool" where
  "py_eq JNull b = (b = JNull)"
| "py_eq (JBool x) b =
     (case b of JBool y \<Rightarrow> x = y | JInt n \<Rightarrow> bool_int x = n | _ \<Rightarrow> False)"
| "py_eq (JInt m) b =
     (case b of JBool y \<Rightarrow> m = bool_int y | JInt n \<Rightarrow> m = n | _ \<Rightarrow> False)"
| "py_eq (JStr s) b = (b = JStr s)"
| "py_eq (JArr xs) b = (case b of JArr ys \<Rightarrow> py_eq_list xs ys | _ \<Rightarrow> False)"
| "py_eq (JObj kvs) b =
     (case b of JObj kws \<Rightarrow> length kvs = length kws \<and> py_eq_items kvs kws | _ \<Rightarrow> False)"
| "py_eq_list [] ys = (ys = [])"
| "py_eq_list (x # xs) ys =
     (case ys of [] \<Rightarrow> False | y # ys' \<Rightarrow> py_eq x y \<and> py_eq_list xs ys')"
| "py_eq_items [] kws = True"
| "py_eq_items (kv # kvs) kws =
     (case map_of kws (fst kv) of
        None \<Rightarrow> False
      | Some w \<Rightarrow> py_eq (snd kv) w \<and> py_eq_items kvs kws)"

text \<open>\<^verbatim>\<open>d.get(k)\<close>: the value stored under \<^verbatim>\<open>k\<close>, or \<^verbatim>\<open>None\<close>.\<close>

definition py_get :: "pydict \<Rightarrow> string \<Rightarrow> json" where
  "py_get d k = (case map_of d k of None \<Rightarrow> JNull | Some v \<Rightarrow> v)"

text \<open>
  \<^verbatim>\<open>d[k] = v\<close>: an existing key keeps its place and takes the new value, a new key goes
  to the end.
\<close>

fun py_setitem :: "pydict \<Rightarrow> string \<Rightarrow> json \<Rightarrow> pydict" where
  "py_setitem [] k v = [(k, v)]"
| "py_setitem (p # ps) k v = (if fst p = k then (k, v) # ps else p # py_setitem ps k v)"

text \<open>\<^verbatim>\<open>x in xs\<close> and \<^verbatim>\<open>xs.index(x)\<close> on a list (\<^verbatim>\<open>None\<close> stands for \<^verbatim>\<open>ValueError\<close>).\<close>

fun py_in :: "json \<Rightarrow> json list \<Rightarrow> bool" where
  "py_in x [] = False"
| "py_in x (y # ys) = (if py_eq y x then True else py_in x ys)"

fun py_index :: "json list \<Rightarrow> json \<Rightarrow> nat option" where
  "py_index [] x = None"
| "py_index (y # ys) x =
     (if py_eq y x then Some 0 else map_option Suc (py_index ys x))"

section \<open>Global state of the review application\<close>

text \<open>
  \<^verbatim>\<open>PDF_TESTS\<close> is a dict from document name to the list of that document's tests, in
  insertion order; \<^verbatim>\<open>ALL_PDFS\<close> the list of document names; \<^verbatim>\<open>CURRENT_PDF\<close> a document
  name or \<^verbatim>\<open>None\<close> (\<^const>\<open>JNull\<close>).
\<close>

type_synonym index = "(json \<times> pydict list) list"

record state =
  PDF_TESTS :: index
  ALL_PDFS :: "json list"
  CURRENT_PDF :: json

text \<open>Dictionary lookup by key: the first entry whose key equals the given one.\<close>

fun dict_find :: "index \<Rightarrow> json \<Rightarrow> pydict list option" where
  "dict_find [] k = None"
| "dict_find (e # es) k = (if py_eq (fst e) k then Some (snd e) else dict_find es k)"

subsection \<open>\<^verbatim>\<open>find_next_unchecked_pdf\<close>\<close>

text \<open>The inner loop: is there a test whose \<^verbatim>\<open>checked\<close> is \<^verbatim>\<open>None\<close> (absent or null)?\<close>

fun has_unchecked :: "pydict list \<Rightarrow> bool" where
  "has_unchecked [] = False"
| "has_unchecked (t # ts) = (if py_get t ''checked'' = JNull then True else has_unchecked ts)"

text \<open>
  \<^verbatim>\<open>PDF_TESTS[pdf_name]\<close> and \<^verbatim>\<open>PDF_TESTS.get(pdf_name, [])\<close>. \<^verbatim>\<open>PDF_TESTS\<close> is a
  \<^verbatim>\<open>defaultdict(list)\<close>, so that both read a name it does not hold as the empty list.
\<close>

definition tests_for :: "index \<Rightarrow> json \<Rightarrow> pydict list" where
  "tests_for idx pdf_name = (case dict_find idx pdf_name of None \<Rightarrow> [] | Some ts \<Rightarrow> ts)"

text \<open>The outer loop over \<^verbatim>\<open>ALL_PDFS\<close>.\<close>

fun scan_pdfs :: "index \<Rightarrow> json list \<Rightarrow> json" where
  "scan_pdfs idx [] = JNull"
| "scan_pdfs idx (pdf_name # ns) =
     (if has_unchecked (tests_for idx pdf_name) then pdf_name else scan_pdfs idx ns)"

definition find_next_unchecked_pdf :: "state \<Rightarrow> json" where
  "find_next_unchecked_pdf s = scan_pdfs (PDF_TESTS s) (ALL_PDFS s)"

subsection \<open>Navigation: \<^verbatim>\<open>next_pdf\<close>, \<^verbatim>\<open>prev_pdf\<close>, \<^verbatim>\<open>goto_pdf\<close>\<close>

text \<open>
  Each handler updates \<^verbatim>\<open>CURRENT_PDF\<close> and redirects to the main page. The call of
  \<^verbatim>\<open>index\<close> is guarded by \<^verbatim>\<open>in\<close>, so its \<^verbatim>\<open>ValueError\<close> branch is never taken; the
  model leaves the state as it is there.
\<close>

definition next_pdf :: "state \<Rightarrow> state" where
  "next_pdf s =
     (if py_in (CURRENT_PDF s) (ALL_PDFS s) then
        (case py_index (ALL_PDFS s) (CURRENT_PDF s) of
           None \<Rightarrow> s
         | Some current_index \<Rightarrow>
             if int current_index < int (length (ALL_PDFS s)) - 1
             then s\<lparr>CURRENT_PDF := ALL_PDFS s ! (current_index + 1)\<rparr>
             else s\<lparr>CURRENT_PDF := find_next_unchecked_pdf s\<rparr>)
      else s\<lparr>CURRENT_PDF := find_next_unchecked_pdf s\<rparr>)"

definition prev_pdf :: "state \<Rightarrow> state" where
  "prev_pdf s =
     (if py_in (CURRENT_PDF s) (ALL_PDFS s) then
        (case py_index (ALL_PDFS s) (CURRENT_PDF s) of
           None \<Rightarrow> s
         | Some current_index \<Rightarrow>
             if current_index > 0
             then s\<lparr>CURRENT_PDF := ALL_PDFS s ! (current_index - 1)\<rparr>
             else s)
      else s)"

definition goto_pdf :: "int \<Rightarrow> state \<Rightarrow> state" where
  "goto_pdf i s =
     (if 0 \<le> i \<and> i < int (length (ALL_PDFS s))
      then s\<lparr>CURRENT_PDF := ALL_PDFS s ! nat i\<rparr>
      else s)"

subsection \<open>\<^verbatim>\<open>save_dataset\<close>: the content written\<close>

text \<open>
  The text of the file is Python \<^verbatim>\<open>str\<close>: a line is the list of its Unicode code
  points, and \<open>str\<close> turns a literal into one.
\<close>

type_synonym pystr = "nat list"

definition str :: "string \<Rightarrow> pystr" where
  "str s = map of_char s"

definition newline :: pystr where
  "newline = [10]"

text \<open>
  \<^verbatim>\<open>save_dataset\<close> flattens the lists of \<^verbatim>\<open>PDF_TESTS.values()\<close> and writes
  \<^verbatim>\<open>json.dumps(test) + "\n"\<close> for each test. \<^verbatim>\<open>json.dumps\<close> belongs to Python's library and
  is a parameter here; a file is the list of its lines.
\<close>

definition all_tests :: "index \<Rightarrow> pydict list" where
  "all_tests idx = concat (map snd idx)"

definition save_dataset :: "(pydict \<Rightarrow> pystr) \<Rightarrow> state \<Rightarrow> pystr list" where
  "save_dataset dumps s = map (\<lambda>test. dumps test @ newline) (all_tests (PDF_TESTS s))"

subsection \<open>\<^verbatim>\<open>save_dataset\<close>: the files touched\<close>

text \<open>
  \<^verbatim>\<open>save_dataset\<close> opens \<^verbatim>\<open>tempfile.NamedTemporaryFile(mode='w', delete=False)\<close>: it passes
  no \<^verbatim>\<open>dir\<close>, so the file is created under \<^verbatim>\<open>tempfile.gettempdir()\<close>, whatever
  \<^verbatim>\<open>jsonl_file\<close> is. After writing it calls \<^verbatim>\<open>shutil.move(temp_file.name, jsonl_file)\<close>,
  which Python's library documents as: \<^verbatim>\<open>os.rename\<close> when the destination is on the same
  file system, otherwise the source is copied onto the destination and then removed.
  The environment gives the path of the temporary file and tells which paths share a
  file system; the result is the list of file operations, in order.
\<close>

datatype file_op =
    Create string
  | Write_lines string "pystr list"
  | Rename string string
  | Copy_onto string string
  | Remove string

record os_env =
  temp_path :: string
  same_filesystem :: "string \<Rightarrow> string \<Rightarrow> bool"

definition shutil_move :: "os_env \<Rightarrow> string \<Rightarrow> string \<Rightarrow> file_op list" where
  "shutil_move env src dst =
     (if same_filesystem env src dst then [Rename src dst]
      else [Copy_onto src dst, Remove src])"

definition save_dataset_files ::
  "os_env \<Rightarrow> (pydict \<Rightarrow> pystr) \<Rightarrow> state \<Rightarrow> string \<Rightarrow> file_op list" where
  "save_dataset_files env dumps s jsonl_file =
     [Create (temp_path env), Write_lines (temp_path env) (save_dataset dumps s)]
     @ shutil_move env (temp_path env) jsonl_file"

subsection \<open>\<^verbatim>\<open>update_test\<close>\<close>

text \<open>The exceptions that leave a function of the program, or \<^verbatim>\<open>json.loads\<close>.\<close>

datatype py_error =
    FileNotFoundError
  | AttributeError
  | TypeError
  | JSONDecodeError
  | ValueError
  | RecursionError

text \<open>
  The loop over the tests of one document: the first test whose \<^verbatim>\<open>id\<close> equals
  \<^verbatim>\<open>test_id\<close> gets \<^verbatim>\<open>test[field] = value\<close>, and the loop breaks.
\<close>

fun update_first :: "json \<Rightarrow> string \<Rightarrow> json \<Rightarrow> pydict list \<Rightarrow> pydict list" where
  "update_first test_id field v [] = []"
| "update_first test_id field v (test # ts) =
     (if py_eq (py_get test ''id'') test_id then py_setitem test field v # ts
      else test # update_first test_id field v ts)"

text \<open>
  The tests are mutated in place, inside the list that \<^verbatim>\<open>PDF_TESTS.get(pdf_name, [])\<close>
  returns: the entry found for \<^verbatim>\<open>pdf_name\<close> holds the updated list afterwards.
\<close>

fun update_index :: "index \<Rightarrow> json \<Rightarrow> json \<Rightarrow> string \<Rightarrow> json \<Rightarrow> index" where
  "update_index [] pdf_name test_id field v = []"
| "update_index (e # es) pdf_name test_id field v =
     (if py_eq (fst e) pdf_name then (fst e, update_first test_id field v (snd e)) # es
      else e # update_index es pdf_name test_id field v)"

text \<open>
  The handler returns the new state, the lines \<^verbatim>\<open>save_dataset\<close> writes and the
  \<^verbatim>\<open>status\<close> of its JSON answer. A \<^verbatim>\<open>pdf\<close> of the request that is a list or a dict
  makes \<^verbatim>\<open>PDF_TESTS.get\<close> raise \<^verbatim>\<open>TypeError\<close>.
\<close>

definition update_test ::
  "(pydict \<Rightarrow> pystr) \<Rightarrow> json \<Rightarrow> json \<Rightarrow> string \<Rightarrow> json \<Rightarrow> state
     \<Rightarrow> py_error + (state \<times> pystr list \<times> string)" where
  "update_test dumps pdf_name test_id field v s =
     (if \<not> hashable pdf_name then Inl TypeError
      else
        let s' = s\<lparr>PDF_TESTS := update_index (PDF_TESTS s) pdf_name test_id field v\<rparr>
        in Inr (s', save_dataset dumps s', ''success''))"

subsection \<open>\<^verbatim>\<open>load_dataset\<close>\<close>

text \<open>
  \<^verbatim>\<open>line.strip()\<close> removes the leading and the trailing whitespace. The whitespace of
  \<^verbatim>\<open>str\<close> is: U+0009 to U+000D, U+001C to U+0020, U+0085, U+00A0, U+1680, U+2000 to
  U+200A, U+2028, U+2029, U+202F, U+205F and U+3000.
\<close>

definition isspace :: "nat \<Rightarrow> bool" where
  "isspace c =
     ((9 \<le> c \<and> c \<le> 13) \<or> (28 \<le> c \<and> c \<le> 32) \<or> c = 133 \<or> c = 160 \<or> c = 5760
      \<or> (8192 \<le> c \<and> c \<le> 8202) \<or> c = 8232 \<or> c = 8233 \<or> c = 8239 \<or> c = 8287
      \<or> c = 12288)"

definition strip :: "pystr \<Rightarrow> pystr" where
  "strip l = rev (dropWhile isspace (rev (dropWhile isspace l)))"

text \<open>
  \<^verbatim>\<open>pdf_tests[pdf_name].append(test)\<close> on a \<^verbatim>\<open>defaultdict(list)\<close>: the list of an
  existing key grows at its end, a new key is added after all others with a one-element
  list.
\<close>

fun dict_append :: "index \<Rightarrow> json \<Rightarrow> pydict \<Rightarrow> index" where
  "dict_append [] k test = [(k, [test])]"
| "dict_append (e # es) k test =
     (if py_eq (fst e) k then (fst e, snd e @ [test]) # es
      else e # dict_append es k test)"

definition warning :: "pystr \<Rightarrow> pystr" where
  "warning line = str ''Warning: Could not parse line as JSON: '' @ line"

text \<open>
  The loop over the lines of the file, with the dict built so far and the warnings printed
  so far. \<^verbatim>\<open>json.loads\<close> is a parameter: it returns a value or raises.
  \<^verbatim>\<open>JSONDecodeError\<close> is the only exception the loop catches; any other one that
  \<^verbatim>\<open>json.loads\<close> raises (\<^verbatim>\<open>ValueError\<close> for an integer of too many digits,
  \<^verbatim>\<open>RecursionError\<close> for deep nesting) leaves the function. So do the two the loop body
  raises: a line that parses to anything but a dict has no \<^verbatim>\<open>get\<close>
  (\<^verbatim>\<open>AttributeError\<close>), and a truthy \<^verbatim>\<open>pdf\<close> that is a list or a dict cannot be a key
  (\<^verbatim>\<open>TypeError\<close>). The lines are those the text file yields, and printing a warning is
  taken to succeed.
\<close>

fun load_lines ::
  "(pystr \<Rightarrow> py_error + json) \<Rightarrow> pystr list \<Rightarrow> index \<Rightarrow> pystr list
     \<Rightarrow> py_error + (index \<times> pystr list)" where
  "load_lines loads [] pdf_tests ws = Inr (pdf_tests, ws)"
| "load_lines loads (l # ls) pdf_tests ws =
     (let line = strip l in
      if line = [] then load_lines loads ls pdf_tests ws
      else
        (case loads line of
           Inl e \<Rightarrow>
             if e = JSONDecodeError
             then load_lines loads ls pdf_tests (ws @ [warning line])
             else Inl e
         | Inr (JObj test) \<Rightarrow>
             (let pdf_name = py_get test ''pdf'' in
              if truthy pdf_name then
                if hashable pdf_name
                then load_lines loads ls (dict_append pdf_tests pdf_name test) ws
                else Inl TypeError
              else load_lines loads ls pdf_tests ws)
         | Inr _ \<Rightarrow> Inl AttributeError))"

text \<open>
  The file is \<^const>\<open>None\<close> when it does not exist. The result is the pair the function
  returns, \<^verbatim>\<open>(pdf_tests, all_pdfs)\<close>, and the warnings it printed.
\<close>

definition load_dataset ::
  "(pystr \<Rightarrow> py_error + json) \<Rightarrow> pystr list option
     \<Rightarrow> py_error + ((index \<times> json list) \<times> pystr list)" where
  "load_dataset loads file =
     (case file of
        None \<Rightarrow> Inl FileNotFoundError
      | Some lines \<Rightarrow>
          (case load_lines loads lines [] [] of
             Inl e \<Rightarrow> Inl e
           | Inr (pdf_tests, ws) \<Rightarrow> Inr ((pdf_tests, map fst pdf_tests), ws)))"

section \<open>Invariants of the index\<close>

text \<open>
  What \<^verbatim>\<open>load_dataset\<close> establishes and every handler keeps: the keys of \<^verbatim>\<open>PDF_TESTS\<close>
  are truthy, hashable and pairwise different, and \<^verbatim>\<open>ALL_PDFS\<close> lists them in order.
\<close>

fun keys_distinct :: "json list \<Rightarrow> bool" where
  "keys_distinct [] = True"
| "keys_distinct (k # ks) = (\<not> py_in k ks \<and> keys_distinct ks)"

definition keys_ok :: "json list \<Rightarrow> bool" where
  "keys_ok ks = (list_all (\<lambda>k. hashable k \<and> truthy k) ks \<and> keys_distinct ks)"

definition index_ok :: "state \<Rightarrow> bool" where
  "index_ok s = (ALL_PDFS s = map fst (PDF_TESTS s) \<and> keys_ok (ALL_PDFS s))"

text \<open>A test is unreviewed when its \<^verbatim>\<open>checked\<close> is absent or null.\<close>

definition is_unchecked :: "pydict \<Rightarrow> bool" where
  "is_unchecked t = (py_get t ''checked'' = JNull)"

text \<open>
  \<^verbatim>\<open>load_dataset\<close> files every test under its own \<^verbatim>\<open>pdf\<close> value; an edit of a field other
  than \<^verbatim>\<open>pdf\<close> keeps it so.
\<close>

definition tests_owned :: "index \<Rightarrow> bool" where
  "tests_owned idx =
     list_all (\<lambda>e. list_all (\<lambda>t. py_eq (fst e) (py_get t ''pdf'')) (snd e)) idx"

section \<open>What the specification says of load and save\<close>

text \<open>
  The definitions of this section follow the words of the specification, not the code;
  the theorems compare them with \<^const>\<open>load_dataset\<close> and \<^const>\<open>save_dataset\<close>.

  The records a stream contributes, in file order: the lines that are not blank and
  parse to a dict whose \<^verbatim>\<open>pdf\<close> is truthy.
\<close>

fun accepted :: "(pystr \<Rightarrow> py_error + json) \<Rightarrow> pystr list \<Rightarrow> pydict list" where
  "accepted loads [] = []"
| "accepted loads (l # ls) =
     (if strip l = [] then accepted loads ls
      else case loads (strip l) of
             Inr (JObj test) \<Rightarrow>
               if truthy (py_get test ''pdf'') then test # accepted loads ls
               else accepted loads ls
           | _ \<Rightarrow> accepted loads ls)"

text \<open>One warning for every line that is not blank and is not JSON.\<close>

fun parse_warnings :: "(pystr \<Rightarrow> py_error + json) \<Rightarrow> pystr list \<Rightarrow> pystr list" where
  "parse_warnings loads [] = []"
| "parse_warnings loads (l # ls) =
     (if strip l \<noteq> [] \<and> loads (strip l) = Inl JSONDecodeError
      then warning (strip l) # parse_warnings loads ls
      else parse_warnings loads ls)"

text \<open>
  The streams on which the load does not stop with an exception: on every line that is
  not blank \<^verbatim>\<open>json.loads\<close> raises nothing but \<^verbatim>\<open>JSONDecodeError\<close>, a line that parses is a
  dict, and a truthy \<^verbatim>\<open>pdf\<close> can be a dictionary key.
\<close>

definition line_ok :: "(pystr \<Rightarrow> py_error + json) \<Rightarrow> pystr \<Rightarrow> bool" where
  "line_ok loads l =
     (strip l = [] \<or>
      (case loads (strip l) of
         Inl e \<Rightarrow> e = JSONDecodeError
       | Inr (JObj test) \<Rightarrow>
           \<not> truthy (py_get test ''pdf'') \<or> hashable (py_get test ''pdf'')
       | Inr _ \<Rightarrow> False))"

definition loadable :: "(pystr \<Rightarrow> py_error + json) \<Rightarrow> pystr list \<Rightarrow> bool" where
  "loadable loads lines = list_all (line_ok loads) lines"

text \<open>Document names in order of first sight.\<close>

definition add_name :: "json list \<Rightarrow> json \<Rightarrow> json list" where
  "add_name names k = (if py_in k names then names else names @ [k])"

definition first_sight :: "json list \<Rightarrow> json list" where
  "first_sight ks = foldl add_name [] ks"

text \<open>The records of one document: those whose \<^verbatim>\<open>pdf\<close> equals its name.\<close>

definition same_pdf :: "json \<Rightarrow> pydict \<Rightarrow> bool" where
  "same_pdf k t = py_eq (py_get t ''pdf'') k"

text \<open>
  A well-formed record stream: every line is a record, a dict with a truthy \<^verbatim>\<open>pdf\<close>
  that can be a key. Its records are what the lines parse to.
\<close>

definition record_line :: "(pystr \<Rightarrow> py_error + json) \<Rightarrow> pystr \<Rightarrow> bool" where
  "record_line loads l =
     (strip l \<noteq> [] \<and>
      (case loads (strip l) of
         Inr (JObj test) \<Rightarrow> truthy (py_get test ''pdf'') \<and> hashable (py_get test ''pdf'')
       | _ \<Rightarrow> False))"

definition well_formed :: "(pystr \<Rightarrow> py_error + json) \<Rightarrow> pystr list \<Rightarrow> bool" where
  "well_formed loads lines = list_all (record_line loads) lines"

fun records_of :: "(pystr \<Rightarrow> py_error + json) \<Rightarrow> pystr list \<Rightarrow> pydict list" where
  "records_of loads [] = []"
| "records_of loads (l # ls) =
     (if strip l = [] then records_of loads ls
      else case loads (strip l) of
             Inr (JObj test) \<Rightarrow> test # records_of loads ls
           | _ \<Rightarrow> records_of loads ls)"

text \<open>
  What is needed of \<^verbatim>\<open>json.dumps\<close> and \<^verbatim>\<open>json.loads\<close> on a test: the line written for it
  reads back as the same dict.
\<close>

definition round_trips ::
  "(pystr \<Rightarrow> py_error + json) \<Rightarrow> (pydict \<Rightarrow> pystr) \<Rightarrow> pydict \<Rightarrow> bool" where
  "round_trips loads dumps t =
     (strip (dumps t @ newline) \<noteq> [] \<and> loads (strip (dumps t @ newline)) = Inr (JObj t))"

text \<open>Looking a record up by document name and \<^verbatim>\<open>id\<close>: the first match in the list.\<close>

definition find_test :: "index \<Rightarrow> json \<Rightarrow> json \<Rightarrow> pydict option" where
  "find_test idx pdf_name test_id =
     find (\<lambda>t. py_eq (py_get t ''id'') test_id) (tests_for idx pdf_name)"

text \<open>The loop of \<^const>\<open>load_lines\<close> on the accepted records alone.\<close>

fun add_all :: "index \<Rightarrow> pydict list \<Rightarrow> index" where
  "add_all idx [] = idx"
| "add_all idx (t # ts) = add_all (dict_append idx (py_get t ''pdf'') t) ts"

section \<open>Example data\<close>

text \<open>
  Two documents: \<^verbatim>\<open>A\<close> with two unreviewed tests, \<^verbatim>\<open>B\<close> with one verified test. The
  lines are what \<^verbatim>\<open>json.dumps\<close> writes for the tests, and \<open>ex_loads\<close>, \<open>ex_dumps\<close> are
  \<^verbatim>\<open>json.loads\<close> and \<^verbatim>\<open>json.dumps\<close> restricted to these lines.
\<close>

definition test_a1 :: pydict where
  "test_a1 = [(''pdf'', JStr ''A''), (''id'', JStr ''a1'')]"

definition test_a2 :: pydict where
  "test_a2 = [(''pdf'', JStr ''A''), (''id'', JStr ''a2''), (''checked'', JNull)]"

definition test_b1 :: pydict where
  "test_b1 = [(''pdf'', JStr ''B''), (''id'', JStr ''b1''), (''checked'', JStr ''verified'')]"

definition test_a1_verified :: pydict where
  "test_a1_verified =
     [(''pdf'', JStr ''A''), (''id'', JStr ''a1''), (''checked'', JStr ''verified'')]"

definition test_empty_pdf :: pydict where
  "test_empty_pdf = [(''pdf'', JStr ''''), (''id'', JStr ''x'')]"

definition line_a1 :: pystr where
  \<open>line_a1 = str ''{"pdf": "A", "id": "a1"}''\<close>

definition line_a2 :: pystr where
  \<open>line_a2 = str ''{"pdf": "A", "id": "a2", "checked": null}''\<close>

definition line_b1 :: pystr where
  \<open>line_b1 = str ''{"pdf": "B", "id": "b1", "checked": "verified"}''\<close>

definition line_a1_verified :: pystr where
  \<open>line_a1_verified = str ''{"pdf": "A", "id": "a1", "checked": "verified"}''\<close>

definition line_empty_pdf :: pystr where
  \<open>line_empty_pdf = str ''{"pdf": "", "id": "x"}''\<close>

text \<open>The first test of \<^verbatim>\<open>A\<close> after an edit of its \<^verbatim>\<open>pdf\<close>, and of its \<^verbatim>\<open>id\<close>.\<close>

definition test_a1_moved :: pydict where
  "test_a1_moved = [(''pdf'', JStr ''B''), (''id'', JStr ''a1'')]"

definition test_a1_renamed :: pydict where
  "test_a1_renamed = [(''pdf'', JStr ''A''), (''id'', JStr ''zz'')]"

definition line_a1_moved :: pystr where
  \<open>line_a1_moved = str ''{"pdf": "B", "id": "a1"}''\<close>

definition line_a1_renamed :: pystr where
  \<open>line_a1_renamed = str ''{"pdf": "A", "id": "zz"}''\<close>

definition ex_loads :: "pystr \<Rightarrow> py_error + json" where
  "ex_loads line =
     (if line = line_a1 then Inr (JObj test_a1)
      else if line = line_a1_moved then Inr (JObj test_a1_moved)
      else if line = line_a1_renamed then Inr (JObj test_a1_renamed)
      else if line = line_a2 then Inr (JObj test_a2)
      else if line = line_b1 then Inr (JObj test_b1)
      else if line = line_a1_verified then Inr (JObj test_a1_verified)
      else if line = line_empty_pdf then Inr (JObj test_empty_pdf)
      else if line = str ''[1, 2]'' then Inr (JArr [JInt 1, JInt 2])
      else Inl JSONDecodeError)"

definition ex_dumps :: "pydict \<Rightarrow> pystr" where
  "ex_dumps t =
     (if t = test_a1 then line_a1
      else if t = test_a1_moved then line_a1_moved
      else if t = test_a1_renamed then line_a1_renamed
      else if t = test_a2 then line_a2
      else if t = test_b1 then line_b1
      else if t = test_a1_verified then line_a1_verified
      else if t = test_empty_pdf then line_empty_pdf
      else str ''{}'')"

definition ex_index :: index where
  "ex_index = [(JStr ''A'', [test_a1, test_a2]), (JStr ''B'', [test_b1])]"

definition ex_state :: state where
  "ex_state =
     \<lparr>PDF_TESTS = ex_index, ALL_PDFS = [JStr ''A'', JStr ''B''], CURRENT_PDF = JStr ''A''\<rparr>"

text \<open>
  A line of whitespace: a no-break space, an em space, a tab and a line feed.
\<close>

definition line_blank :: pystr where
  "line_blank = [160, 8195, 9, 10]"

text \<open>A file with a line that is not JSON, a blank line and a record with an empty name.\<close>

definition ex_lines :: "pystr list" where
  "ex_lines =
     [str ''not json'', line_a1, line_blank, line_empty_pdf, line_b1 @ newline, line_a2]"

text \<open>A file of three records, the two of \<^verbatim>\<open>A\<close> apart.\<close>

definition ex_file :: "pystr list" where
  "ex_file = [line_a1 @ newline, line_b1 @ newline, line_a2 @ newline]"

text \<open>
  A machine whose temporary directory \<^verbatim>\<open>/tmp\<close> is a file system of its own, and a dataset
  directory outside it.
\<close>

definition ex_env :: os_env where
  "ex_env =
     \<lparr>temp_path = ''/tmp/tmpq7x2k9'',
      same_filesystem = (\<lambda>src dst. (take 5 src = ''/tmp/'') = (take 5 dst = ''/tmp/''))\<rparr>"

definition ex_jsonl_file :: string where
  "ex_jsonl_file = ''/data/bench/table_tests.jsonl''"

text \<open>The same index with the cursor on the last document, and with a stale cursor.\<close>

definition ex_state_last :: state where
  "ex_state_last = ex_state\<lparr>CURRENT_PDF := JStr ''B''\<rparr>"

definition ex_state_stale :: state where
  "ex_state_stale = ex_state\<lparr>CURRENT_PDF := JStr ''Z''\<rparr>"

text \<open>A single document with an unreviewed test, the cursor on it.\<close>

definition ex_state_single :: state where
  "ex_state_single =
     \<lparr>PDF_TESTS = [(JStr ''A'', [test_a1])], ALL_PDFS = [JStr ''A''],
      CURRENT_PDF = JStr ''A''\<rparr>"

section \<open>Properties\<close>

subsection \<open>Equality of keys, membership and lookup\<close>

lemma bool_int_simps [simp]:
  "bool_int b = 1 \<longleftrightarrow> b" "bool_int b = 0 \<longleftrightarrow> \<not> b" "1 = bool_int b \<longleftrightarrow> b" "0 = bool_int b \<longleftrightarrow> \<not> b"
  "bool_int a = bool_int b \<longleftrightarrow> a = b"
  by (cases b; cases a; simp)+

lemma py_eq_refl: "hashable a \<Longrightarrow> py_eq a a"
  by (cases a) auto

lemma py_eq_sym: "hashable a \<Longrightarrow> hashable b \<Longrightarrow> py_eq a b = py_eq b a"
  by (cases a; cases b) auto

lemma py_eq_trans: "hashable a \<Longrightarrow> hashable b \<Longrightarrow> hashable c \<Longrightarrow> py_eq a b \<Longrightarrow> py_eq b c \<Longrightarrow> py_eq a c"
  by (cases a; cases b; cases c) auto

lemma py_eq_hashable: "hashable a \<Longrightarrow> py_eq a b \<Longrightarrow> hashable b"
  by (cases a; cases b) auto

lemma py_eq_truthy: "hashable a \<Longrightarrow> py_eq a b \<Longrightarrow> truthy b = truthy a"
  by (cases a; cases b) (auto split: bool.splits)

lemma py_in_iff: "py_in x ys \<longleftrightarrow> (\<exists>y\<in>set ys. py_eq y x)"
  by (induction ys) auto

lemma py_index_Some: "py_in x ys \<Longrightarrow> \<exists>i. py_index ys x = Some i \<and> i < length ys \<and> py_eq (ys ! i) x \<and> (\<forall>j<i. \<not> py_eq (ys ! j) x)"
proof (induction ys)
  case Nil then show ?case by simp
next
  case (Cons y ys)
  show ?case
  proof (cases "py_eq y x")
    case True then show ?thesis by simp
  next
    case False
    with Cons obtain i where i: "py_index ys x = Some i" "i < length ys" "py_eq (ys ! i) x" "\<forall>j<i. \<not> py_eq (ys ! j) x"
      by auto
    have "\<forall>j<Suc i. \<not> py_eq ((y # ys) ! j) x"
      using False i(4) by (auto simp: less_Suc_eq_0_disj)
    with False i show ?thesis by simp
  qed
qed

lemma has_unchecked_iff: "has_unchecked ts \<longleftrightarrow> (\<exists>t\<in>set ts. is_unchecked t)"
  by (induction ts) (auto simp: is_unchecked_def)

lemma scan_pdfs_JNull:
  "JNull \<notin> set ns \<Longrightarrow> scan_pdfs idx ns = JNull \<longleftrightarrow> (\<forall>n\<in>set ns. \<not> has_unchecked (tests_for idx n))"
  by (induction ns) auto

lemma scan_pdfs_first:
  "scan_pdfs idx ns \<noteq> JNull \<Longrightarrow>
   \<exists>i<length ns. scan_pdfs idx ns = ns ! i
      \<and> has_unchecked (tests_for idx (ns ! i))
      \<and> (\<forall>j<i. \<not> has_unchecked (tests_for idx (ns ! j)))"
proof (induction ns)
  case Nil then show ?case by simp
next
  case (Cons n ns)
  let ?look = "tests_for idx"
  show ?case
  proof (cases "has_unchecked (?look n)")
    case True
    then show ?thesis by (intro exI[of _ 0]) simp
  next
    case False
    with Cons.prems have "scan_pdfs idx ns \<noteq> JNull" by simp
    from Cons.IH[OF this] obtain i where i: "i < length ns" "scan_pdfs idx ns = ns ! i"
      "has_unchecked (?look (ns ! i))" "\<forall>j<i. \<not> has_unchecked (?look (ns ! j))" by blast
    have "\<forall>j<Suc i. \<not> has_unchecked (?look ((n # ns) ! j))"
      using False i(4) by (auto simp: less_Suc_eq_0_disj)
    with False i show ?thesis by (intro exI[of _ "Suc i"]) simp
  qed
qed

lemma dict_find_nth:
  "keys_distinct (map fst idx) \<Longrightarrow> list_all hashable (map fst idx) \<Longrightarrow> i < length idx
   \<Longrightarrow> dict_find idx (fst (idx ! i)) = Some (snd (idx ! i))"
proof (induction idx arbitrary: i)
  case Nil then show ?case by simp
next
  case (Cons e es)
  show ?case
  proof (cases i)
    case 0 with Cons.prems show ?thesis by (simp add: py_eq_refl)
  next
    case (Suc i')
    with Cons.prems have i': "i' < length es" by simp
    have h: "hashable (fst e)" "hashable (fst (es ! i'))"
      using Cons.prems i' by (auto simp: list_all_iff)
    have "\<not> py_eq (fst (es ! i')) (fst e)"
      using Cons.prems(1) i' by (auto simp: py_in_iff)
    then have "\<not> py_eq (fst e) (fst (es ! i'))" using py_eq_sym[OF h] by simp
    moreover have "dict_find es (fst (es ! i')) = Some (snd (es ! i'))"
      using Cons.IH[of i'] Cons.prems i' by simp
    ultimately show ?thesis using Suc by simp
  qed
qed

lemma keys_ok_hashable: "keys_ok ks \<Longrightarrow> list_all hashable ks"
  by (auto simp: keys_ok_def list_all_iff)

lemma keys_ok_not_None: "keys_ok ks \<Longrightarrow> JNull \<notin> set ks"
  by (auto simp: keys_ok_def list_all_iff)

lemma tests_for_nth:
  assumes "index_ok s" "i < length (ALL_PDFS s)"
  shows "tests_for (PDF_TESTS s) (ALL_PDFS s ! i) = snd (PDF_TESTS s ! i)"
proof -
  from assms have eq: "ALL_PDFS s = map fst (PDF_TESTS s)" and ok: "keys_ok (map fst (PDF_TESTS s))"
    by (auto simp: index_ok_def)
  from assms eq have i: "i < length (PDF_TESTS s)" by (metis length_map)
  have "dict_find (PDF_TESTS s) (fst (PDF_TESTS s ! i)) = Some (snd (PDF_TESTS s ! i))"
    using dict_find_nth[OF _ keys_ok_hashable[OF ok] i] ok by (simp add: keys_ok_def)
  then show ?thesis using eq i by (simp add: tests_for_def)
qed

lemma scan_pdfs_range: "scan_pdfs idx ns = JNull \<or> scan_pdfs idx ns \<in> set ns"
  by (induction ns) auto

lemma py_index_hd:
  "ns \<noteq> [] \<Longrightarrow> hashable (hd ns) \<Longrightarrow> py_index ns (hd ns) = Some 0"
  by (cases ns) (auto simp: py_eq_refl)

lemma py_index_last:
  "ns \<noteq> [] \<Longrightarrow> list_all hashable ns \<Longrightarrow> keys_distinct ns \<Longrightarrow> py_index ns (last ns) = Some (length ns - 1)"
proof (induction ns)
  case Nil then show ?case by simp
next
  case (Cons n ns)
  show ?case
  proof (cases "ns = []")
    case True with Cons.prems show ?thesis by (simp add: py_eq_refl)
  next
    case False
    then have "last ns \<in> set ns" by simp
    with Cons.prems have "\<not> py_eq (last ns) n" by (auto simp: py_in_iff)
    moreover have "hashable n" "hashable (last ns)"
      using Cons.prems \<open>last ns \<in> set ns\<close> by (auto simp: list_all_iff)
    ultimately have "\<not> py_eq n (last ns)" using py_eq_sym by blast
    moreover have "py_index ns (last ns) = Some (length ns - 1)"
      using Cons.IH False Cons.prems by simp
    ultimately show ?thesis using False by simp
  qed
qed

lemma update_first_no_match:
  "\<forall>t\<in>set ts. \<not> py_eq (py_get t ''id'') test_id \<Longrightarrow> update_first test_id field v ts = ts"
  by (induction ts) auto

lemma update_first_split:
  "\<forall>u\<in>set pre. \<not> py_eq (py_get u ''id'') test_id \<Longrightarrow> py_eq (py_get t ''id'') test_id
   \<Longrightarrow> update_first test_id field v (pre @ t # post) = pre @ py_setitem t field v # post"
  by (induction pre) auto

lemma update_index_no_match:
  "\<forall>t\<in>set (tests_for idx pdf_name). \<not> py_eq (py_get t ''id'') test_id
   \<Longrightarrow> update_index idx pdf_name test_id field v = idx"
  by (induction idx) (auto simp: tests_for_def update_first_no_match)

lemma dict_find_update_index:
  "dict_find (update_index idx pdf_name test_id field v) pdf_name
     = map_option (update_first test_id field v) (dict_find idx pdf_name)"
  by (induction idx) auto

lemma strip_Nil_iff: "strip l = [] \<longleftrightarrow> list_all isspace l"
proof
  assume "strip l = []"
  then have a: "\<forall>c\<in>set (dropWhile isspace l). isspace c"
    by (simp add: strip_def)
  have "dropWhile isspace l = []"
  proof (rule ccontr)
    assume n: "dropWhile isspace l \<noteq> []"
    then have "\<not> isspace (hd (dropWhile isspace l))" by (rule hd_dropWhile)
    moreover have "hd (dropWhile isspace l) \<in> set (dropWhile isspace l)" using n by simp
    ultimately show False using a by blast
  qed
  then show "list_all isspace l" by (simp add: list_all_iff)
next
  assume "list_all isspace l"
  then have "\<forall>c\<in>set l. isspace c" by (simp add: list_all_iff)
  then show "strip l = []" by (auto simp: strip_def dest: set_dropWhileD)
qed

lemma load_lines_skip:
  assumes "strip l = [] \<or> (\<exists>test. loads (strip l) = Inr (JObj test) \<and> \<not> truthy (py_get test ''pdf''))"
  shows "load_lines loads (pre @ l # post) idx ws = load_lines loads (pre @ post) idx ws"
proof (induction pre arbitrary: idx ws)
  case Nil
  from assms show ?case by (auto simp: Let_def)
next
  case (Cons p pre)
  then show ?case
    by (simp add: Let_def split: sum.splits json.splits)
qed

subsection \<open>The example data evaluated\<close>

lemma ex_strips:
  "strip (str ''not json'') = (str ''not json'')" "strip line_a1 = line_a1" "strip line_blank = []"
  "strip line_empty_pdf = line_empty_pdf" "strip (line_b1 @ newline) = line_b1"
  "strip line_a2 = line_a2" "strip line_b1 = line_b1" "strip line_a1_verified = line_a1_verified"
  "strip (line_a1 @ newline) = line_a1" "strip (line_a2 @ newline) = line_a2"
  "strip (line_a1_verified @ newline) = line_a1_verified"
  "strip (line_a1_moved @ newline) = line_a1_moved"
  "strip (line_a1_renamed @ newline) = line_a1_renamed"
  by (simp_all add: strip_def isspace_def str_def line_a1_def line_a2_def line_b1_def
      line_a1_verified_def line_empty_pdf_def line_a1_moved_def line_a1_renamed_def
      line_blank_def newline_def)

lemma ex_loads_simps:
  "ex_loads (str ''not json'') = Inl JSONDecodeError" "ex_loads line_a1 = Inr (JObj test_a1)"
  "ex_loads line_a2 = Inr (JObj test_a2)" "ex_loads line_b1 = Inr (JObj test_b1)"
  "ex_loads line_a1_verified = Inr (JObj test_a1_verified)"
  "ex_loads line_empty_pdf = Inr (JObj test_empty_pdf)"
  "ex_loads line_a1_moved = Inr (JObj test_a1_moved)"
  "ex_loads line_a1_renamed = Inr (JObj test_a1_renamed)"
  by (simp_all add: ex_loads_def str_def line_a1_def line_a2_def line_b1_def
      line_a1_verified_def line_empty_pdf_def line_a1_moved_def line_a1_renamed_def)

lemma ex_pdfs:
  "py_get test_a1 ''pdf'' = JStr ''A''" "py_get test_a2 ''pdf'' = JStr ''A''"
  "py_get test_b1 ''pdf'' = JStr ''B''" "py_get test_a1_verified ''pdf'' = JStr ''A''"
  "py_get test_empty_pdf ''pdf'' = JStr []" "py_get test_a1_moved ''pdf'' = JStr ''B''"
  "py_get test_a1_renamed ''pdf'' = JStr ''A''"
  by (simp_all add: py_get_def test_a1_def test_a2_def test_b1_def test_a1_verified_def
      test_empty_pdf_def test_a1_moved_def test_a1_renamed_def)

lemma ex_ids:
  "py_get test_a1 ''id'' = JStr ''a1''" "py_get test_a2 ''id'' = JStr ''a2''"
  "py_get test_b1 ''id'' = JStr ''b1''" "py_get test_a1_verified ''id'' = JStr ''a1''"
  "py_get test_a1_moved ''id'' = JStr ''a1''" "py_get test_a1_renamed ''id'' = JStr ''zz''"
  by (simp_all add: py_get_def test_a1_def test_a2_def test_b1_def test_a1_verified_def
      test_a1_moved_def test_a1_renamed_def)

lemma ex_lines_nonempty:
  "(str ''not json'') \<noteq> []" "line_a1 \<noteq> []" "line_a2 \<noteq> []" "line_b1 \<noteq> []" "line_empty_pdf \<noteq> []"
  "line_a1_verified \<noteq> []" "line_a1_moved \<noteq> []" "line_a1_renamed \<noteq> []"
  by (simp_all add: str_def line_a1_def line_a2_def line_b1_def line_empty_pdf_def
      line_a1_verified_def line_a1_moved_def line_a1_renamed_def)

lemma ex_dumps_simps:
  "ex_dumps test_a1 = line_a1" "ex_dumps test_a2 = line_a2" "ex_dumps test_b1 = line_b1"
  "ex_dumps test_a1_verified = line_a1_verified" "ex_dumps test_a1_moved = line_a1_moved"
  "ex_dumps test_a1_renamed = line_a1_renamed"
  by (simp_all add: ex_dumps_def test_a1_def test_a2_def test_b1_def test_a1_verified_def
      test_a1_moved_def test_a1_renamed_def)

lemma ex_round_trips:
  "round_trips ex_loads ex_dumps test_a1" "round_trips ex_loads ex_dumps test_a2"
  "round_trips ex_loads ex_dumps test_b1" "round_trips ex_loads ex_dumps test_a1_verified"
  "round_trips ex_loads ex_dumps test_a1_moved" "round_trips ex_loads ex_dumps test_a1_renamed"
  by (simp_all add: round_trips_def ex_dumps_simps ex_strips ex_loads_simps ex_lines_nonempty)

lemma ex_records_of_file: "records_of ex_loads ex_file = [test_a1, test_b1, test_a2]"
  by (simp add: ex_file_def ex_strips ex_loads_simps ex_lines_nonempty)

lemma ex_state_ok: "index_ok ex_state" "tests_owned (PDF_TESTS ex_state)"
  by (simp_all add: index_ok_def keys_ok_def tests_owned_def ex_state_def ex_index_def ex_pdfs)

lemma ex_setitems:
  "py_setitem test_a1 ''checked'' (JStr ''verified'') = test_a1_verified"
  "py_setitem test_a1 ''pdf'' (JStr ''B'') = test_a1_moved"
  "py_setitem test_a1 ''id'' (JStr ''zz'') = test_a1_renamed"
  by (simp_all add: test_a1_def test_a1_verified_def test_a1_moved_def test_a1_renamed_def)

lemma ex_updates:
  "update_index ex_index (JStr ''A'') (JStr ''a1'') ''checked'' (JStr ''verified'')
     = [(JStr ''A'', [test_a1_verified, test_a2]), (JStr ''B'', [test_b1])]"
  "update_index ex_index (JStr ''A'') (JStr ''a1'') ''pdf'' (JStr ''B'')
     = [(JStr ''A'', [test_a1_moved, test_a2]), (JStr ''B'', [test_b1])]"
  "update_index ex_index (JStr ''A'') (JStr ''a1'') ''id'' (JStr ''zz'')
     = [(JStr ''A'', [test_a1_renamed, test_a2]), (JStr ''B'', [test_b1])]"
  by (simp_all add: ex_index_def ex_ids ex_setitems)

subsection \<open>Finding the next unreviewed document\<close>

text \<open>
  Claim C4. On an index that satisfies the invariant, \<^verbatim>\<open>find_next_unchecked_pdf\<close> returns
  the first name of \<^verbatim>\<open>ALL_PDFS\<close> whose document has an unreviewed test; it returns a
  document name exactly when some test of the index is unreviewed, and \<^verbatim>\<open>None\<close> exactly
  when every test has a non-null \<^verbatim>\<open>checked\<close>.
\<close>

theorem find_next_unchecked_pdf_first:
  assumes "index_ok s"
  shows "(find_next_unchecked_pdf s \<noteq> JNull \<longrightarrow>
            (\<exists>i<length (ALL_PDFS s). find_next_unchecked_pdf s = ALL_PDFS s ! i
               \<and> (\<exists>t\<in>set (tests_for (PDF_TESTS s) (ALL_PDFS s ! i)). is_unchecked t)
               \<and> (\<forall>j<i. \<forall>t\<in>set (tests_for (PDF_TESTS s) (ALL_PDFS s ! j)). \<not> is_unchecked t)))
       \<and> (find_next_unchecked_pdf s \<in> set (ALL_PDFS s)
            \<longleftrightarrow> (\<exists>e\<in>set (PDF_TESTS s). \<exists>t\<in>set (snd e). is_unchecked t))
       \<and> (find_next_unchecked_pdf s = JNull
            \<longleftrightarrow> (\<forall>e\<in>set (PDF_TESTS s). \<forall>t\<in>set (snd e). \<not> is_unchecked t))"
proof -
  let ?r = "find_next_unchecked_pdf s"
  from assms have eq: "ALL_PDFS s = map fst (PDF_TESTS s)" and ok: "keys_ok (ALL_PDFS s)"
    by (auto simp: index_ok_def)
  have len: "length (ALL_PDFS s) = length (PDF_TESTS s)" using eq by (metis length_map)
  have nn: "JNull \<notin> set (ALL_PDFS s)" by (rule keys_ok_not_None[OF ok])
  have first: "\<exists>i<length (ALL_PDFS s). ?r = ALL_PDFS s ! i
               \<and> (\<exists>t\<in>set (tests_for (PDF_TESTS s) (ALL_PDFS s ! i)). is_unchecked t)
               \<and> (\<forall>j<i. \<forall>t\<in>set (tests_for (PDF_TESTS s) (ALL_PDFS s ! j)). \<not> is_unchecked t)" if "?r \<noteq> JNull"
    using scan_pdfs_first[of "PDF_TESTS s" "ALL_PDFS s"] that
    unfolding find_next_unchecked_pdf_def has_unchecked_iff by simp
  have null: "?r = JNull \<longleftrightarrow> (\<forall>e\<in>set (PDF_TESTS s). \<forall>t\<in>set (snd e). \<not> is_unchecked t)"
  proof
    assume "?r = JNull"
    then have a: "\<forall>n\<in>set (ALL_PDFS s). \<not> (\<exists>t\<in>set (tests_for (PDF_TESTS s) n). is_unchecked t)"
      using scan_pdfs_JNull[OF nn, of "PDF_TESTS s"]
      unfolding find_next_unchecked_pdf_def has_unchecked_iff by simp
    show "\<forall>e\<in>set (PDF_TESTS s). \<forall>t\<in>set (snd e). \<not> is_unchecked t"
    proof (intro ballI)
      fix e t assume "e \<in> set (PDF_TESTS s)" "t \<in> set (snd e)"
      then obtain i where i: "i < length (PDF_TESTS s)" "e = PDF_TESTS s ! i"
        by (auto simp: in_set_conv_nth)
      then have "tests_for (PDF_TESTS s) (ALL_PDFS s ! i) = snd e"
        using tests_for_nth[OF assms, of i] len by simp
      moreover have "ALL_PDFS s ! i \<in> set (ALL_PDFS s)" using i len by simp
      ultimately show "\<not> is_unchecked t" using a \<open>t \<in> set (snd e)\<close> by metis
    qed
  next
    assume b: "\<forall>e\<in>set (PDF_TESTS s). \<forall>t\<in>set (snd e). \<not> is_unchecked t"
    show "?r = JNull"
    proof (rule ccontr)
      assume "?r \<noteq> JNull"
      from first[OF this] obtain i t where i: "i < length (ALL_PDFS s)"
        "t \<in> set (tests_for (PDF_TESTS s) (ALL_PDFS s ! i))" "is_unchecked t" by blast
      then have "t \<in> set (snd (PDF_TESTS s ! i))" using tests_for_nth[OF assms, of i] by simp
      moreover have "PDF_TESTS s ! i \<in> set (PDF_TESTS s)" using i len by simp
      ultimately show False using b i(3) by blast
    qed
  qed
  have mem: "?r \<in> set (ALL_PDFS s) \<longleftrightarrow> ?r \<noteq> JNull"
    using first nn by (metis nth_mem)
  show ?thesis using first null mem by blast
qed

theorem find_next_unchecked_pdf_first_witness:
  "index_ok ex_state
   \<and> find_next_unchecked_pdf ex_state \<in> set (ALL_PDFS ex_state)
   \<and> (\<exists>e\<in>set (PDF_TESTS ex_state). \<exists>t\<in>set (snd e). is_unchecked t)
   \<and> find_next_unchecked_pdf ex_state = JStr ''A''"
proof -
  have ok: "index_ok ex_state"
    by (simp add: index_ok_def keys_ok_def ex_state_def ex_index_def)
  have r: "find_next_unchecked_pdf ex_state = JStr ''A''"
    by (simp add: find_next_unchecked_pdf_def ex_state_def ex_index_def tests_for_def
        test_a1_def py_get_def)
  then have "find_next_unchecked_pdf ex_state \<in> set (ALL_PDFS ex_state)"
    by (simp add: ex_state_def)
  with find_next_unchecked_pdf_first[OF ok] ok r show ?thesis by blast
qed

subsection \<open>Navigation\<close>

text \<open>
  Claim C7. On an index that satisfies the invariant, \<^verbatim>\<open>goto_pdf\<close> with an index outside
  the list changes nothing, \<^verbatim>\<open>prev_pdf\<close> on the first document changes nothing, and
  \<^verbatim>\<open>next_pdf\<close> on the last document sets the cursor to the result of
  \<^verbatim>\<open>find_next_unchecked_pdf\<close>, which is \<^verbatim>\<open>None\<close> or a document of the list (the last
  document itself is possible).
\<close>

theorem navigation_bounds:
  assumes "index_ok s"
  shows "(i < 0 \<or> int (length (ALL_PDFS s)) \<le> i \<longrightarrow> goto_pdf i s = s)
       \<and> (ALL_PDFS s \<noteq> [] \<and> CURRENT_PDF s = hd (ALL_PDFS s) \<longrightarrow> prev_pdf s = s)
       \<and> (ALL_PDFS s \<noteq> [] \<and> CURRENT_PDF s = last (ALL_PDFS s) \<longrightarrow>
            next_pdf s = s\<lparr>CURRENT_PDF := find_next_unchecked_pdf s\<rparr>
            \<and> (find_next_unchecked_pdf s = JNull \<or> find_next_unchecked_pdf s \<in> set (ALL_PDFS s)))"
proof -
  from assms have ok: "keys_ok (ALL_PDFS s)" unfolding index_ok_def by blast
  then have h: "list_all hashable (ALL_PDFS s)" and d: "keys_distinct (ALL_PDFS s)"
    by (auto simp: keys_ok_def list_all_iff)
  have g: "goto_pdf i s = s" if "i < 0 \<or> int (length (ALL_PDFS s)) \<le> i"
    using that by (auto simp: goto_pdf_def)
  have p: "prev_pdf s = s" if "ALL_PDFS s \<noteq> []" "CURRENT_PDF s = hd (ALL_PDFS s)"
  proof -
    have "hashable (hd (ALL_PDFS s))" using h that(1) by (cases "ALL_PDFS s") auto
    then have "py_index (ALL_PDFS s) (CURRENT_PDF s) = Some 0"
      using py_index_hd that by simp
    then show ?thesis by (simp add: prev_pdf_def)
  qed
  have n: "next_pdf s = s\<lparr>CURRENT_PDF := find_next_unchecked_pdf s\<rparr>"
    if "ALL_PDFS s \<noteq> []" "CURRENT_PDF s = last (ALL_PDFS s)"
  proof -
    have "py_index (ALL_PDFS s) (CURRENT_PDF s) = Some (length (ALL_PDFS s) - 1)"
      using py_index_last[OF that(1) h d] that(2) by simp
    then show ?thesis using that(1) by (simp add: next_pdf_def)
  qed
  have r: "find_next_unchecked_pdf s = JNull \<or> find_next_unchecked_pdf s \<in> set (ALL_PDFS s)"
    unfolding find_next_unchecked_pdf_def by (rule scan_pdfs_range)
  show ?thesis using g p n r by blast
qed

theorem navigation_bounds_witness:
  "index_ok ex_state \<and> int (length (ALL_PDFS ex_state)) \<le> 5 \<and> goto_pdf 5 ex_state = ex_state
   \<and> ALL_PDFS ex_state \<noteq> [] \<and> CURRENT_PDF ex_state = hd (ALL_PDFS ex_state)
   \<and> prev_pdf ex_state = ex_state
   \<and> index_ok ex_state_last \<and> CURRENT_PDF ex_state_last = last (ALL_PDFS ex_state_last)
   \<and> next_pdf ex_state_last
       = ex_state_last\<lparr>CURRENT_PDF := find_next_unchecked_pdf ex_state_last\<rparr>"
proof -
  have ok: "index_ok ex_state" "index_ok ex_state_last"
    by (simp_all add: index_ok_def keys_ok_def ex_state_last_def ex_state_def ex_index_def)
  have a: "int (length (ALL_PDFS ex_state)) \<le> 5" "ALL_PDFS ex_state \<noteq> []"
    "CURRENT_PDF ex_state = hd (ALL_PDFS ex_state)"
    by (simp_all add: ex_state_def)
  have b: "ALL_PDFS ex_state_last \<noteq> []"
    "CURRENT_PDF ex_state_last = last (ALL_PDFS ex_state_last)"
    by (simp_all add: ex_state_last_def ex_state_def)
  from navigation_bounds[OF ok(1), of 5] a
  have "goto_pdf 5 ex_state = ex_state" "prev_pdf ex_state = ex_state" by blast+
  moreover from navigation_bounds[OF ok(2), of 5] b
  have "next_pdf ex_state_last
          = ex_state_last\<lparr>CURRENT_PDF := find_next_unchecked_pdf ex_state_last\<rparr>" by blast
  ultimately show ?thesis using ok a b by blast
qed

text \<open>
  With a single document that still has an unreviewed test, \<^verbatim>\<open>next_pdf\<close> on the last
  document stays on it: the result is neither another document nor \<^verbatim>\<open>None\<close>.
\<close>

theorem next_pdf_last_stays:
  "CURRENT_PDF ex_state_single = last (ALL_PDFS ex_state_single)
   \<and> CURRENT_PDF (next_pdf ex_state_single) = CURRENT_PDF ex_state_single
   \<and> CURRENT_PDF (next_pdf ex_state_single) \<noteq> JNull"
  by (simp add: ex_state_single_def next_pdf_def find_next_unchecked_pdf_def tests_for_def
      test_a1_def py_get_def)

text \<open>
  Claim C5. When \<^verbatim>\<open>CURRENT_PDF\<close> is not in \<^verbatim>\<open>ALL_PDFS\<close>, \<^verbatim>\<open>next_pdf\<close> sets it to the
  result of \<^verbatim>\<open>find_next_unchecked_pdf\<close>, \<^verbatim>\<open>prev_pdf\<close> leaves the state as it is, and
  \<^verbatim>\<open>goto_pdf\<close> does not look at the cursor: it moves to the document at the index when the
  index is in range and leaves the state as it is otherwise.
\<close>

theorem stale_cursor_navigation:
  assumes "\<not> py_in (CURRENT_PDF s) (ALL_PDFS s)"
  shows "next_pdf s = s\<lparr>CURRENT_PDF := find_next_unchecked_pdf s\<rparr>
       \<and> prev_pdf s = s
       \<and> goto_pdf i s =
           (if 0 \<le> i \<and> i < int (length (ALL_PDFS s)) then s\<lparr>CURRENT_PDF := ALL_PDFS s ! nat i\<rparr> else s)"
  using assms by (simp add: next_pdf_def prev_pdf_def goto_pdf_def)

theorem stale_cursor_navigation_witness:
  "\<not> py_in (CURRENT_PDF ex_state_stale) (ALL_PDFS ex_state_stale)
   \<and> CURRENT_PDF (next_pdf ex_state_stale) = JStr ''A''
   \<and> prev_pdf ex_state_stale = ex_state_stale
   \<and> CURRENT_PDF (goto_pdf 1 ex_state_stale) = JStr ''B''"
proof -
  have st: "\<not> py_in (CURRENT_PDF ex_state_stale) (ALL_PDFS ex_state_stale)"
    by (simp add: ex_state_stale_def ex_state_def)
  have r: "find_next_unchecked_pdf ex_state_stale = JStr ''A''"
    by (simp add: find_next_unchecked_pdf_def ex_state_stale_def ex_state_def ex_index_def
        tests_for_def test_a1_def py_get_def)
  have l: "ALL_PDFS ex_state_stale = [JStr ''A'', JStr ''B'']"
    by (simp add: ex_state_stale_def ex_state_def)
  from stale_cursor_navigation[OF st, of 1] r l st show ?thesis by simp
qed

text \<open>
  With a stale cursor, \<^verbatim>\<open>prev_pdf\<close> and \<^verbatim>\<open>goto_pdf\<close> do not end on the document that
  \<^verbatim>\<open>find_next_unchecked_pdf\<close> returns.
\<close>

theorem stale_cursor_no_fallback:
  "\<not> py_in (CURRENT_PDF ex_state_stale) (ALL_PDFS ex_state_stale)
   \<and> CURRENT_PDF (prev_pdf ex_state_stale) \<noteq> find_next_unchecked_pdf ex_state_stale
   \<and> CURRENT_PDF (goto_pdf 1 ex_state_stale) \<noteq> find_next_unchecked_pdf ex_state_stale"
  by (simp add: ex_state_stale_def ex_state_def ex_index_def prev_pdf_def goto_pdf_def
      find_next_unchecked_pdf_def tests_for_def test_a1_def py_get_def)

subsection \<open>Editing a test\<close>

text \<open>
  Claim C9. When the document's list holds a test with the requested \<^verbatim>\<open>id\<close>,
  \<^verbatim>\<open>update_test\<close> assigns the value to the first such test only: the tests before it and
  all tests after it, those with the same \<^verbatim>\<open>id\<close> included, stay as they are.
\<close>

theorem update_test_first_match_only:
  assumes "hashable pdf_name"
    and "dict_find (PDF_TESTS s) pdf_name = Some (pre @ t # post)"
    and "\<forall>u\<in>set pre. \<not> py_eq (py_get u ''id'') test_id"
    and "py_eq (py_get t ''id'') test_id"
  shows "\<exists>s' out. update_test dumps pdf_name test_id field v s = Inr (s', out, ''success'')
           \<and> dict_find (PDF_TESTS s') pdf_name = Some (pre @ py_setitem t field v # post)"
  using assms by (simp add: update_test_def Let_def dict_find_update_index update_first_split)

theorem update_test_first_match_only_witness:
  "hashable (JStr ''A'')
   \<and> dict_find [(JStr ''A'', [test_a2, test_a1, test_a1])] (JStr ''A'')
       = Some ([test_a2] @ test_a1 # [test_a1])
   \<and> py_get test_a2 ''id'' = JStr ''a2''
   \<and> py_eq (py_get test_a1 ''id'') (JStr ''a1'')
   \<and> (\<exists>s' out.
         update_test ex_dumps (JStr ''A'') (JStr ''a1'') ''checked'' (JStr ''verified'')
           (ex_state\<lparr>PDF_TESTS := [(JStr ''A'', [test_a2, test_a1, test_a1])]\<rparr>)
           = Inr (s', out, ''success'')
         \<and> dict_find (PDF_TESTS s') (JStr ''A'') = Some [test_a2, test_a1_verified, test_a1])"
proof -
  let ?s = "ex_state\<lparr>PDF_TESTS := [(JStr ''A'', [test_a2, test_a1, test_a1])]\<rparr>"
  have h: "hashable (JStr ''A'')" by simp
  have f: "dict_find (PDF_TESTS ?s) (JStr ''A'') = Some ([test_a2] @ test_a1 # [test_a1])"
    by simp
  have p: "\<forall>u\<in>set [test_a2]. \<not> py_eq (py_get u ''id'') (JStr ''a1'')"
    by (simp add: test_a2_def py_get_def)
  have m: "py_eq (py_get test_a1 ''id'') (JStr ''a1'')"
    by (simp add: test_a1_def py_get_def)
  have v: "py_setitem test_a1 ''checked'' (JStr ''verified'') = test_a1_verified"
    by (simp add: test_a1_def test_a1_verified_def)
  have a2: "py_get test_a2 ''id'' = JStr ''a2''"
    by (simp add: test_a2_def py_get_def)
  from update_test_first_match_only[OF h f p m, of ex_dumps "''checked''" "JStr ''verified''"]
  show ?thesis using h a2 m v by simp
qed

subsection \<open>Lines that load drops\<close>

text \<open>
  Claim C10. A line of whitespace only, and a line that parses to a dict whose \<^verbatim>\<open>pdf\<close>
  is absent or falsy, leave no trace: \<^verbatim>\<open>load_dataset\<close> returns the same dict, the same
  list of names, the same warnings and the same error as on the file without that line.
\<close>

theorem load_dataset_drops_falsy_pdf:
  assumes "list_all isspace l
           \<or> (\<exists>test. loads (strip l) = Inr (JObj test) \<and> \<not> truthy (py_get test ''pdf''))"
  shows "load_dataset loads (Some (pre @ l # post)) = load_dataset loads (Some (pre @ post))"
  using assms load_lines_skip[of l loads pre post "[]" "[]"]
  by (simp add: load_dataset_def strip_Nil_iff)

theorem load_dataset_drops_falsy_pdf_witness:
  "ex_loads (strip line_empty_pdf) = Inr (JObj test_empty_pdf)
   \<and> py_get test_empty_pdf ''pdf'' = JStr []
   \<and> list_all isspace line_blank
   \<and> load_dataset ex_loads (Some ([line_a1] @ line_empty_pdf # [line_b1]))
       = load_dataset ex_loads (Some ([line_a1] @ [line_b1]))
   \<and> load_dataset ex_loads (Some ([line_a1] @ line_blank # [line_b1]))
       = load_dataset ex_loads (Some ([line_a1] @ [line_b1]))"
proof -
  have s: "strip line_empty_pdf = line_empty_pdf" by (rule ex_strips)
  have e: "ex_loads line_empty_pdf = Inr (JObj test_empty_pdf)" by (rule ex_loads_simps)
  have g: "py_get test_empty_pdf ''pdf'' = JStr []"
    by (simp add: test_empty_pdf_def py_get_def)
  from e g have a: "list_all isspace line_empty_pdf
      \<or> (\<exists>test. ex_loads (strip line_empty_pdf) = Inr (JObj test)
             \<and> \<not> truthy (py_get test ''pdf''))"
    using s by simp
  have w: "list_all isspace line_blank" by (simp add: line_blank_def isspace_def)
  then have b: "list_all isspace line_blank
      \<or> (\<exists>test. ex_loads (strip line_blank) = Inr (JObj test)
             \<and> \<not> truthy (py_get test ''pdf''))"
    by simp
  from load_dataset_drops_falsy_pdf[of line_empty_pdf ex_loads "[line_a1]" "[line_b1]", OF a]
    load_dataset_drops_falsy_pdf[of "line_blank" ex_loads "[line_a1]" "[line_b1]", OF b] e g s w
  show ?thesis by simp
qed

subsection \<open>The load loop as a fold over the accepted records\<close>

lemma load_lines_add_all:
  "loadable loads lines \<Longrightarrow>
   load_lines loads lines idx ws = Inr (add_all idx (accepted loads lines), ws @ parse_warnings loads lines)"
proof (induction lines arbitrary: idx ws)
  case Nil then show ?case by simp
next
  case (Cons l ls)
  then have ok: "line_ok loads l" and rest: "loadable loads ls" by (auto simp: loadable_def)
  note IH = Cons.IH[OF rest]
  show ?case
  proof (cases "strip l = []")
    case True then show ?thesis using IH by simp
  next
    case False
    show ?thesis
    proof (cases "loads (strip l)")
      case (Inl e)
      with ok False have "e = JSONDecodeError" by (simp add: line_ok_def)
      then show ?thesis using False Inl IH by simp
    next
      case (Inr v)
      with ok False obtain test where v: "v = JObj test"
        and h: "\<not> truthy (py_get test ''pdf'') \<or> hashable (py_get test ''pdf'')"
        by (auto simp: line_ok_def split: json.splits)
      show ?thesis using False Inr v h IH by (auto simp: Let_def)
    qed
  qed
qed

lemma accepted_pdf:
  "loadable loads lines \<Longrightarrow> t \<in> set (accepted loads lines)
   \<Longrightarrow> truthy (py_get t ''pdf'') \<and> hashable (py_get t ''pdf'')"
proof (induction lines)
  case Nil then show ?case by simp
next
  case (Cons l ls)
  then have ok: "line_ok loads l" and rest: "loadable loads ls" by (auto simp: loadable_def)
  show ?case
  proof (cases "t \<in> set (accepted loads ls)")
    case True then show ?thesis using Cons.IH rest by simp
  next
    case False
    with Cons.prems(2) have "strip l \<noteq> []" "loads (strip l) = Inr (JObj t)" "truthy (py_get t ''pdf'')"
      by (auto split: if_splits sum.splits json.splits)
    with ok show ?thesis by (auto simp: line_ok_def)
  qed
qed

lemma keys_dict_append:
  "map fst (dict_append idx k t) = add_name (map fst idx) k"
  by (induction idx) (auto simp: add_name_def)

lemma dict_find_dict_append:
  assumes "list_all hashable (map fst idx)" "hashable k"
  shows "dict_find (dict_append idx k t) k' =
           (if py_eq k k' then Some (tests_for idx k' @ [t]) else dict_find idx k')"
  using assms
proof (induction idx)
  case Nil then show ?case by (simp add: tests_for_def)
next
  case (Cons e es)
  then have he: "hashable (fst e)" by simp
  have IH: "dict_find (dict_append es k t) k' =
           (if py_eq k k' then Some (tests_for es k' @ [t]) else dict_find es k')"
    using Cons by simp
  show ?case
  proof (cases "py_eq (fst e) k")
    case True
    have "py_eq (fst e) k' \<longleftrightarrow> py_eq k k'"
    proof
      assume a: "py_eq (fst e) k'"
      have "py_eq k (fst e)" using True py_eq_sym[OF he \<open>hashable k\<close>] by simp
      moreover have "hashable k'" using py_eq_hashable[OF he a] .
      ultimately show "py_eq k k'" using py_eq_trans[OF \<open>hashable k\<close> he _ _ a] by blast
    next
      assume a: "py_eq k k'"
      have "hashable k'" using py_eq_hashable[OF \<open>hashable k\<close> a] .
      then show "py_eq (fst e) k'" using py_eq_trans[OF he \<open>hashable k\<close> _ True a] by blast
    qed
    then show ?thesis using True by (simp add: tests_for_def)
  next
    case False
    have "\<not> (py_eq (fst e) k' \<and> py_eq k k')"
    proof
      assume a: "py_eq (fst e) k' \<and> py_eq k k'"
      then have hk': "hashable k'" using py_eq_hashable[OF he] by blast
      have "py_eq k' k" using a py_eq_sym[OF \<open>hashable k\<close> hk'] by simp
      then have "py_eq (fst e) k" using a py_eq_trans[OF he hk' \<open>hashable k\<close>] by blast
      with False show False by simp
    qed
    then show ?thesis using False IH by (auto simp: tests_for_def)
  qed
qed

lemma all_tests_dict_append:
  "mset (all_tests (dict_append idx k t)) = mset (all_tests idx) + {#t#}"
  by (induction idx) (auto simp: all_tests_def)

lemma add_name_hashable:
  "list_all hashable names \<Longrightarrow> hashable k \<Longrightarrow> list_all hashable (add_name names k)"
  by (simp add: add_name_def)

lemma add_name_truthy:
  "list_all truthy names \<Longrightarrow> truthy k \<Longrightarrow> list_all truthy (add_name names k)"
  by (simp add: add_name_def)

lemma keys_distinct_snoc:
  "list_all hashable names \<Longrightarrow> hashable k \<Longrightarrow> keys_distinct names \<Longrightarrow> \<not> py_in k names
   \<Longrightarrow> keys_distinct (names @ [k])"
proof (induction names)
  case Nil then show ?case by simp
next
  case (Cons n ns)
  have "\<not> py_eq n k" using Cons.prems(4) by (simp split: if_splits)
  then have "\<not> py_eq k n" using py_eq_sym[of n k] Cons.prems by simp
  moreover have "\<not> py_in k ns" using Cons.prems(4) by (simp split: if_splits)
  ultimately show ?case using Cons by (auto simp: py_in_iff)
qed

lemma add_name_distinct:
  "list_all hashable names \<Longrightarrow> hashable k \<Longrightarrow> keys_distinct names
   \<Longrightarrow> keys_distinct (add_name names k)"
  by (simp add: add_name_def keys_distinct_snoc)

lemma tests_owned_dict_append:
  "hashable k \<Longrightarrow> tests_owned idx \<Longrightarrow> py_get t ''pdf'' = k \<Longrightarrow> tests_owned (dict_append idx k t)"
  by (induction idx) (auto simp: tests_owned_def py_eq_refl)

lemma py_eq_left: "hashable a \<Longrightarrow> py_eq a b \<Longrightarrow> py_eq b c = py_eq a c"
  by (cases a; cases b; cases c) auto

lemma py_eq_right: "hashable a \<Longrightarrow> hashable b \<Longrightarrow> py_eq a c \<Longrightarrow> py_eq b c \<Longrightarrow> py_eq a b"
  by (cases a; cases b; cases c) auto

lemma dict_find_None: "dict_find idx k = None \<longleftrightarrow> \<not> py_in k (map fst idx)"
  by (induction idx) auto

lemma add_all_keys:
  "map fst (add_all idx ts) = foldl add_name (map fst idx) (map (\<lambda>t. py_get t ''pdf'') ts)"
  by (induction ts arbitrary: idx) (auto simp: keys_dict_append)

lemma add_all_mset: "mset (all_tests (add_all idx ts)) = mset (all_tests idx) + mset ts"
  by (induction ts arbitrary: idx) (auto simp: all_tests_dict_append)

lemma keys_ok_add_name: "keys_ok names \<Longrightarrow> hashable k \<Longrightarrow> truthy k \<Longrightarrow> keys_ok (add_name names k)"
proof -
  assume a: "keys_ok names" "hashable k" "truthy k"
  then have h: "list_all hashable names" and d: "keys_distinct names"
    by (auto simp: keys_ok_def list_all_iff)
  have "keys_distinct (add_name names k)" using add_name_distinct[OF h a(2) d] .
  moreover have "list_all (\<lambda>k. hashable k \<and> truthy k) (add_name names k)"
    using a by (auto simp: keys_ok_def add_name_def)
  ultimately show ?thesis by (simp add: keys_ok_def)
qed

lemma add_all_inv:
  "keys_ok (map fst idx) \<Longrightarrow> tests_owned idx
   \<Longrightarrow> \<forall>t\<in>set ts. truthy (py_get t ''pdf'') \<and> hashable (py_get t ''pdf'')
   \<Longrightarrow> keys_ok (map fst (add_all idx ts)) \<and> tests_owned (add_all idx ts)"
proof (induction ts arbitrary: idx)
  case Nil then show ?case by simp
next
  case (Cons t ts)
  let ?k = "py_get t ''pdf''"
  have k: "hashable ?k" "truthy ?k" using Cons.prems(3) by auto
  have "keys_ok (map fst (dict_append idx ?k t))"
    using keys_ok_add_name[OF Cons.prems(1) k] by (simp add: keys_dict_append)
  moreover have "tests_owned (dict_append idx ?k t)"
    using tests_owned_dict_append[OF k(1) Cons.prems(2)] by simp
  ultimately show ?case using Cons.IH[of "dict_append idx ?k t"] Cons.prems(3) by simp
qed

lemma tests_for_dict_append:
  assumes "list_all hashable (map fst idx)" "hashable k"
  shows "tests_for (dict_append idx k t) k' =
           (if py_eq k k' then tests_for idx k' @ [t] else tests_for idx k')"
  using dict_find_dict_append[OF assms, of t k'] by (simp add: tests_for_def)

lemma add_all_tests_for:
  "list_all hashable (map fst idx) \<Longrightarrow> \<forall>t\<in>set ts. hashable (py_get t ''pdf'')
   \<Longrightarrow> tests_for (add_all idx ts) k = tests_for idx k @ filter (same_pdf k) ts"
proof (induction ts arbitrary: idx)
  case Nil then show ?case by simp
next
  case (Cons t ts)
  let ?k = "py_get t ''pdf''"
  have hk: "hashable ?k" using Cons.prems(2) by simp
  have h': "list_all hashable (map fst (dict_append idx ?k t))"
    using add_name_hashable[OF Cons.prems(1) hk] by (simp add: keys_dict_append)
  have "tests_for (add_all (dict_append idx ?k t) ts) k
          = tests_for (dict_append idx ?k t) k @ filter (same_pdf k) ts"
    using Cons.IH[OF h'] Cons.prems(2) by simp
  moreover have "same_pdf k t = py_eq ?k k" by (simp add: same_pdf_def)
  ultimately show ?case
    using tests_for_dict_append[OF Cons.prems(1) hk, of t k] by simp
qed

lemma filter_all_tests:
  "keys_ok (map fst idx) \<Longrightarrow> tests_owned idx
   \<Longrightarrow> filter (same_pdf k) (all_tests idx) = tests_for idx k"
proof (induction idx)
  case Nil then show ?case by (simp add: all_tests_def tests_for_def)
next
  case (Cons e es)
  from Cons.prems have he: "hashable (fst e)" and nin: "\<not> py_in (fst e) (map fst es)"
    and ok': "keys_ok (map fst es)" and hes: "\<forall>e2\<in>set es. hashable (fst e2)"
    by (auto simp: keys_ok_def list_all_iff)
  from Cons.prems have own: "\<forall>t\<in>set (snd e). py_eq (fst e) (py_get t ''pdf'')"
    and own': "tests_owned es"
    by (auto simp: tests_owned_def list_all_iff)
  have IH: "filter (same_pdf k) (all_tests es) = tests_for es k"
    using Cons.IH[OF ok' own'] .
  have same: "same_pdf k t = py_eq (fst e) k" if "t \<in> set (snd e)" for t
    using py_eq_left[OF he, of "py_get t ''pdf''" k] own that by (simp add: same_pdf_def)
  show ?case
  proof (cases "py_eq (fst e) k")
    case True
    have "filter (same_pdf k) (snd e) = snd e" using same True by (simp add: filter_id_conv)
    moreover have "dict_find es k = None"
    proof -
      have "\<not> py_in k (map fst es)"
      proof
        assume "py_in k (map fst es)"
        then obtain e2 where e2: "e2 \<in> set es" "py_eq (fst e2) k" by (auto simp: py_in_iff)
        then have "py_eq (fst e2) (fst e)" using py_eq_right[OF _ he _ True] hes by blast
        with e2(1) nin show False by (auto simp: py_in_iff)
      qed
      then show ?thesis by (simp add: dict_find_None)
    qed
    ultimately show ?thesis using True IH by (simp add: all_tests_def tests_for_def)
  next
    case False
    have "filter (same_pdf k) (snd e) = []" using same False by (simp add: filter_empty_conv)
    then show ?thesis using False IH by (simp add: all_tests_def tests_for_def)
  qed
qed

lemma owned_pdf:
  "keys_ok (map fst idx) \<Longrightarrow> tests_owned idx \<Longrightarrow> t \<in> set (all_tests idx)
   \<Longrightarrow> truthy (py_get t ''pdf'') \<and> hashable (py_get t ''pdf'')"
proof -
  assume a: "keys_ok (map fst idx)" "tests_owned idx" "t \<in> set (all_tests idx)"
  then obtain e where e: "e \<in> set idx" "t \<in> set (snd e)" by (auto simp: all_tests_def)
  with a have "hashable (fst e)" "truthy (fst e)" "py_eq (fst e) (py_get t ''pdf'')"
    by (auto simp: keys_ok_def tests_owned_def list_all_iff)
  then show ?thesis using py_eq_hashable py_eq_truthy by blast
qed

lemma load_dataset_add_all:
  assumes "loadable loads lines"
  shows "load_dataset loads (Some lines) =
           Inr ((add_all [] (accepted loads lines), map fst (add_all [] (accepted loads lines))),
                parse_warnings loads lines)"
  using load_lines_add_all[OF assms, of "[]" "[]"] by (simp add: load_dataset_def)

lemma first_sight_add_all:
  "map fst (add_all [] ts) = first_sight (map (\<lambda>t. py_get t ''pdf'') ts)"
  using add_all_keys[of "[]" ts] by (simp add: first_sight_def)

subsection \<open>What load builds\<close>

text \<open>
  Claim C8. On a stream where \<^verbatim>\<open>json.loads\<close> raises nothing but \<^verbatim>\<open>JSONDecodeError\<close> and
  every line that parses is a dict whose \<^verbatim>\<open>pdf\<close> is falsy or can be a key,
  \<^verbatim>\<open>load_dataset\<close> returns without an exception: one warning for every line that is not
  blank and is not JSON, the names in order of first sight of the records with a truthy
  \<^verbatim>\<open>pdf\<close>, and under every name those records in file order. Blank lines and records
  with an absent or falsy \<^verbatim>\<open>pdf\<close> leave nothing.
\<close>

theorem load_dataset_groups:
  assumes "loadable loads lines"
  shows "\<exists>pdf_tests.
           load_dataset loads (Some lines)
             = Inr ((pdf_tests, first_sight (map (\<lambda>t. py_get t ''pdf'') (accepted loads lines))),
                    parse_warnings loads lines)
           \<and> map fst pdf_tests = first_sight (map (\<lambda>t. py_get t ''pdf'') (accepted loads lines))
           \<and> (\<forall>k. tests_for pdf_tests k = filter (same_pdf k) (accepted loads lines))"
proof -
  let ?recs = "accepted loads lines"
  let ?idx = "add_all [] ?recs"
  have h: "\<forall>t\<in>set ?recs. hashable (py_get t ''pdf'')"
    using accepted_pdf[OF assms] by blast
  have "tests_for ?idx k = filter (same_pdf k) ?recs" for k
    using add_all_tests_for[of "[]" ?recs k] h by (simp add: tests_for_def)
  then show ?thesis
    using load_dataset_add_all[OF assms] first_sight_add_all[of ?recs] by auto
qed

theorem load_dataset_groups_witness:
  "loadable ex_loads ex_lines
   \<and> (\<exists>pdf_tests.
         load_dataset ex_loads (Some ex_lines)
           = Inr ((pdf_tests, [JStr ''A'', JStr ''B'']), [warning (str ''not json'')])
         \<and> tests_for pdf_tests (JStr ''A'') = [test_a1, test_a2]
         \<and> tests_for pdf_tests (JStr ''B'') = [test_b1])"
proof -
  have l: "loadable ex_loads ex_lines"
    by (simp add: loadable_def line_ok_def ex_lines_def ex_strips ex_loads_simps ex_pdfs
        ex_lines_nonempty)
  have a: "accepted ex_loads ex_lines = [test_a1, test_b1, test_a2]"
    by (simp add: ex_lines_def ex_strips ex_loads_simps ex_pdfs ex_lines_nonempty)
  have w: "parse_warnings ex_loads ex_lines = [warning (str ''not json'')]"
    by (simp add: ex_lines_def ex_strips ex_loads_simps ex_lines_nonempty)
  have f: "first_sight (map (\<lambda>t. py_get t ''pdf'') [test_a1, test_b1, test_a2])
             = [JStr ''A'', JStr ''B'']"
    by (simp add: first_sight_def add_name_def ex_pdfs)
  have s: "filter (same_pdf (JStr ''A'')) [test_a1, test_b1, test_a2] = [test_a1, test_a2]"
    "filter (same_pdf (JStr ''B'')) [test_a1, test_b1, test_a2] = [test_b1]"
    by (simp_all add: same_pdf_def ex_pdfs)
  from load_dataset_groups[OF l] show ?thesis
    unfolding a w f using l s by auto
qed

text \<open>
  A record whose \<^verbatim>\<open>pdf\<close> is present and is the empty string is not filed under its
  \<^verbatim>\<open>pdf\<close> value: the loaded index is empty.
\<close>

theorem load_dataset_drops_present_pdf:
  "ex_loads (strip line_empty_pdf) = Inr (JObj test_empty_pdf)
   \<and> map_of test_empty_pdf ''pdf'' = Some (JStr [])
   \<and> load_dataset ex_loads (Some [line_empty_pdf]) = Inr (([], []), [])"
  by (simp add: load_dataset_def ex_strips ex_loads_simps ex_pdfs ex_lines_nonempty)
    (simp add: test_empty_pdf_def)

lemma record_lineD:
  "record_line loads l \<Longrightarrow>
   strip l \<noteq> [] \<and> (\<exists>t. loads (strip l) = Inr (JObj t)
      \<and> truthy (py_get t ''pdf'') \<and> hashable (py_get t ''pdf''))"
  by (auto simp: record_line_def split: sum.splits json.splits)

lemma record_lineI:
  "strip l \<noteq> [] \<Longrightarrow> loads (strip l) = Inr (JObj t) \<Longrightarrow> truthy (py_get t ''pdf'')
   \<Longrightarrow> hashable (py_get t ''pdf'') \<Longrightarrow> record_line loads l"
  by (simp add: record_line_def)

lemma well_formed_loadable: "well_formed loads lines \<Longrightarrow> loadable loads lines"
proof -
  assume "well_formed loads lines"
  then have "\<forall>l\<in>set lines. record_line loads l" by (simp add: well_formed_def list_all_iff)
  then have "\<forall>l\<in>set lines. line_ok loads l"
    using record_lineD[of loads] by (fastforce simp: line_ok_def)
  then show ?thesis by (simp add: loadable_def list_all_iff)
qed

lemma well_formed_accepted: "well_formed loads lines \<Longrightarrow> accepted loads lines = records_of loads lines"
proof (induction lines)
  case Nil then show ?case by simp
next
  case (Cons l ls)
  then have "record_line loads l" "well_formed loads ls" by (simp_all add: well_formed_def)
  with Cons.IH record_lineD[of loads l] show ?case by auto
qed

lemma records_of_dumps:
  "list_all (round_trips loads dumps) ts
   \<Longrightarrow> records_of loads (map (\<lambda>t. dumps t @ newline) ts) = ts"
  by (induction ts) (auto simp: round_trips_def)

lemma dumps_well_formed:
  "list_all (round_trips loads dumps) ts
   \<Longrightarrow> \<forall>t\<in>set ts. truthy (py_get t ''pdf'') \<and> hashable (py_get t ''pdf'')
   \<Longrightarrow> well_formed loads (map (\<lambda>t. dumps t @ newline) ts)"
  by (induction ts) (auto simp: round_trips_def well_formed_def intro: record_lineI)

lemma add_all_empty_inv:
  assumes "\<forall>t\<in>set ts. truthy (py_get t ''pdf'') \<and> hashable (py_get t ''pdf'')"
  shows "keys_ok (map fst (add_all [] ts))" "tests_owned (add_all [] ts)"
  using add_all_inv[of "[]" ts] assms by (simp_all add: keys_ok_def tests_owned_def)

lemma reload_tests_for:
  assumes "\<forall>t\<in>set ts. truthy (py_get t ''pdf'') \<and> hashable (py_get t ''pdf'')"
  shows "tests_for (add_all [] ts) k = filter (same_pdf k) ts"
  using add_all_tests_for[of "[]" ts k] assms by (simp add: tests_for_def)

text \<open>The index that \<^verbatim>\<open>load_dataset\<close> returns satisfies the invariants.\<close>

lemma load_dataset_invariant:
  assumes "loadable loads lines"
    and "load_dataset loads (Some lines) = Inr ((pdf_tests, all_pdfs), ws)"
  shows "index_ok \<lparr>PDF_TESTS = pdf_tests, ALL_PDFS = all_pdfs, CURRENT_PDF = current\<rparr>
         \<and> tests_owned pdf_tests"
proof -
  have "\<forall>t\<in>set (accepted loads lines). truthy (py_get t ''pdf'') \<and> hashable (py_get t ''pdf'')"
    using accepted_pdf[OF assms(1)] by blast
  from add_all_empty_inv[OF this] load_dataset_add_all[OF assms(1)] assms(2)
  show ?thesis by (auto simp: index_ok_def)
qed

text \<open>
  A line that is JSON but not a dict stops the load: \<^verbatim>\<open>test.get\<close> raises
  \<^verbatim>\<open>AttributeError\<close>, which the loop does not catch.
\<close>

lemma load_dataset_non_dict_aborts:
  "load_dataset ex_loads (Some [str ''[1, 2]'', line_a1]) = Inl AttributeError"
  by (simp add: load_dataset_def strip_def isspace_def str_def ex_loads_def line_a1_def
      line_a2_def line_b1_def line_a1_verified_def line_empty_pdf_def line_a1_moved_def
      line_a1_renamed_def)

text \<open>
  So does a line on which \<^verbatim>\<open>json.loads\<close> raises anything but \<^verbatim>\<open>JSONDecodeError\<close>.
\<close>

lemma load_lines_loads_raises:
  "strip l \<noteq> [] \<Longrightarrow> loads (strip l) = Inl e \<Longrightarrow> e \<noteq> JSONDecodeError
   \<Longrightarrow> load_lines loads (l # ls) idx ws = Inl e"
  by simp

subsection \<open>Saving what was loaded\<close>

text \<open>
  Claim C2. For a well-formed stream whose records \<^verbatim>\<open>json.dumps\<close> and \<^verbatim>\<open>json.loads\<close>
  carry unchanged, the stream saved from the loaded index holds the same records as a
  multiset, each one equal to the record read, and for every document the same records
  in the same order.
\<close>

theorem save_load_round_trip:
  assumes wf: "well_formed loads lines"
    and rt: "list_all (round_trips loads dumps) (records_of loads lines)"
  shows "\<exists>pdf_tests all_pdfs ws.
           load_dataset loads (Some lines) = Inr ((pdf_tests, all_pdfs), ws)
           \<and> mset (records_of loads (save_dataset dumps
                 \<lparr>PDF_TESTS = pdf_tests, ALL_PDFS = all_pdfs, CURRENT_PDF = current\<rparr>))
               = mset (records_of loads lines)
           \<and> (\<forall>k. filter (same_pdf k) (records_of loads (save_dataset dumps
                        \<lparr>PDF_TESTS = pdf_tests, ALL_PDFS = all_pdfs, CURRENT_PDF = current\<rparr>))
                    = filter (same_pdf k) (records_of loads lines))"
proof -
  let ?recs = "records_of loads lines"
  let ?idx = "add_all [] ?recs"
  let ?s = "\<lparr>PDF_TESTS = ?idx, ALL_PDFS = map fst ?idx, CURRENT_PDF = current\<rparr>"
  have l: "loadable loads lines" by (rule well_formed_loadable[OF wf])
  have acc: "accepted loads lines = ?recs" by (rule well_formed_accepted[OF wf])
  have pdfs: "\<forall>t\<in>set ?recs. truthy (py_get t ''pdf'') \<and> hashable (py_get t ''pdf'')"
    using accepted_pdf[OF l] acc by simp
  have ld: "load_dataset loads (Some lines) = Inr ((?idx, map fst ?idx), parse_warnings loads lines)"
    using load_dataset_add_all[OF l] acc by simp
  have ms: "mset (all_tests ?idx) = mset ?recs"
    using add_all_mset[of "[]" ?recs] by (simp add: all_tests_def)
  then have "set (all_tests ?idx) = set ?recs" by (metis set_mset_mset)
  then have "list_all (round_trips loads dumps) (all_tests ?idx)"
    using rt by (simp add: list_all_iff)
  then have out: "records_of loads (save_dataset dumps ?s) = all_tests ?idx"
    by (simp add: save_dataset_def records_of_dumps)
  have "filter (same_pdf k) (all_tests ?idx) = filter (same_pdf k) ?recs" for k
    using filter_all_tests[OF add_all_empty_inv[OF pdfs], of k] reload_tests_for[OF pdfs, of k]
    by simp
  with ld ms out show ?thesis by auto
qed

theorem save_load_round_trip_witness:
  "well_formed ex_loads ex_file
   \<and> list_all (round_trips ex_loads ex_dumps) (records_of ex_loads ex_file)
   \<and> (\<exists>pdf_tests all_pdfs ws.
         load_dataset ex_loads (Some ex_file) = Inr ((pdf_tests, all_pdfs), ws)
         \<and> mset (records_of ex_loads (save_dataset ex_dumps
               \<lparr>PDF_TESTS = pdf_tests, ALL_PDFS = all_pdfs, CURRENT_PDF = JNull\<rparr>))
             = {#test_a1, test_b1, test_a2#}
         \<and> filter (same_pdf (JStr ''A'')) (records_of ex_loads (save_dataset ex_dumps
               \<lparr>PDF_TESTS = pdf_tests, ALL_PDFS = all_pdfs, CURRENT_PDF = JNull\<rparr>))
             = [test_a1, test_a2])"
proof -
  have wf: "well_formed ex_loads ex_file"
    by (simp add: well_formed_def record_line_def ex_file_def ex_strips ex_loads_simps
        ex_lines_nonempty ex_pdfs)
  have rt: "list_all (round_trips ex_loads ex_dumps) (records_of ex_loads ex_file)"
    by (simp add: ex_records_of_file ex_round_trips)
  have f: "filter (same_pdf (JStr ''A'')) [test_a1, test_b1, test_a2] = [test_a1, test_a2]"
    by (simp add: same_pdf_def ex_pdfs)
  from save_load_round_trip[OF wf rt, of JNull] show ?thesis
    unfolding ex_records_of_file using wf rt f
    by (auto simp: ex_records_of_file)
qed

subsection \<open>A request that matches no test\<close>

lemma saved_records_of_loaded:
  assumes l: "loadable loads lines"
    and rt: "list_all (round_trips loads dumps) (accepted loads lines)"
    and idx: "idx = add_all [] (accepted loads lines)"
  shows "mset (records_of loads (map (\<lambda>test. dumps test @ newline) (concat (map snd idx))))
           = mset (accepted loads lines)"
    and "filter (same_pdf k) (records_of loads (map (\<lambda>test. dumps test @ newline) (concat (map snd idx))))
           = filter (same_pdf k) (accepted loads lines)"
proof -
  let ?recs = "accepted loads lines"
  have pdfs: "\<forall>t\<in>set ?recs. truthy (py_get t ''pdf'') \<and> hashable (py_get t ''pdf'')"
    using accepted_pdf[OF l] by blast
  have ms: "mset (all_tests idx) = mset ?recs"
    using add_all_mset[of "[]" ?recs] idx by (simp add: all_tests_def)
  then have "set (all_tests idx) = set ?recs" by (metis set_mset_mset)
  then have "list_all (round_trips loads dumps) (all_tests idx)"
    using rt by (simp add: list_all_iff)
  then have out: "records_of loads (map (\<lambda>test. dumps test @ newline) (concat (map snd idx)))
                    = all_tests idx"
    using records_of_dumps[of loads dumps "all_tests idx"] by (simp add: all_tests_def)
  show "mset (records_of loads (map (\<lambda>test. dumps test @ newline) (concat (map snd idx))))
           = mset ?recs"
    using out ms by simp
  have "filter (same_pdf k) (all_tests idx) = filter (same_pdf k) ?recs"
    using filter_all_tests[OF add_all_empty_inv[OF pdfs], of k] reload_tests_for[OF pdfs, of k] idx
    by simp
  then show "filter (same_pdf k) (records_of loads (map (\<lambda>test. dumps test @ newline) (concat (map snd idx))))
           = filter (same_pdf k) ?recs"
    using out by simp
qed

text \<open>
  Claim C6. When no test of the document named in the request has the requested
  \<^verbatim>\<open>id\<close> (or the document does not exist) and the name can be a dictionary key,
  \<^verbatim>\<open>update_test\<close> raises nothing, leaves the state as it is, answers \<^verbatim>\<open>success\<close> and
  writes one line for every test of that unchanged index, document by document. When the
  index is the one \<^verbatim>\<open>load_dataset\<close> built from a file, the lines written hold the records
  that the load accepted from it, as a multiset and in the same order within every
  document; what the load skipped or dropped is not written back.
\<close>

theorem update_test_no_match:
  assumes "hashable pdf_name"
    and "\<forall>t\<in>set (tests_for (PDF_TESTS s) pdf_name). \<not> py_eq (py_get t ''id'') test_id"
  shows "update_test dumps pdf_name test_id field v s
           = Inr (s, map (\<lambda>test. dumps test @ newline) (concat (map snd (PDF_TESTS s))),
                  ''success'')
       \<and> (\<forall>lines ws.
             loadable loads lines
             \<and> load_dataset loads (Some lines) = Inr ((PDF_TESTS s, ALL_PDFS s), ws)
             \<and> list_all (round_trips loads dumps) (accepted loads lines)
             \<longrightarrow> mset (records_of loads
                        (map (\<lambda>test. dumps test @ newline) (concat (map snd (PDF_TESTS s)))))
                   = mset (accepted loads lines)
                 \<and> (\<forall>k. filter (same_pdf k) (records_of loads
                            (map (\<lambda>test. dumps test @ newline) (concat (map snd (PDF_TESTS s)))))
                        = filter (same_pdf k) (accepted loads lines)))"
proof (intro conjI allI impI)
  show "update_test dumps pdf_name test_id field v s
           = Inr (s, map (\<lambda>test. dumps test @ newline) (concat (map snd (PDF_TESTS s))),
                  ''success'')"
    using assms
    by (simp add: update_test_def update_index_no_match save_dataset_def all_tests_def)
next
  fix lines ws
  assume a: "loadable loads lines
             \<and> load_dataset loads (Some lines) = Inr ((PDF_TESTS s, ALL_PDFS s), ws)
             \<and> list_all (round_trips loads dumps) (accepted loads lines)"
  then have idx: "PDF_TESTS s = add_all [] (accepted loads lines)"
    using load_dataset_add_all[of loads lines] by simp
  show "mset (records_of loads
                        (map (\<lambda>test. dumps test @ newline) (concat (map snd (PDF_TESTS s)))))
                   = mset (accepted loads lines)"
    using saved_records_of_loaded(1)[OF _ _ idx] a by blast
  show "filter (same_pdf k) (records_of loads
                            (map (\<lambda>test. dumps test @ newline) (concat (map snd (PDF_TESTS s)))))
                        = filter (same_pdf k) (accepted loads lines)" for k
    using saved_records_of_loaded(2)[OF _ _ idx] a by blast
qed

lemma ex_lines_loaded:
  "loadable ex_loads ex_lines"
  "accepted ex_loads ex_lines = [test_a1, test_b1, test_a2]"
  "records_of ex_loads ex_lines = [test_a1, test_empty_pdf, test_b1, test_a2]"
  "load_dataset ex_loads (Some ex_lines)
     = Inr ((PDF_TESTS ex_state, ALL_PDFS ex_state), [warning (str ''not json'')])"
  by (simp_all add: loadable_def line_ok_def load_dataset_def ex_lines_def ex_strips
      ex_loads_simps ex_pdfs ex_lines_nonempty ex_state_def ex_index_def)

theorem update_test_no_match_witness:
  "hashable (JStr ''A'')
   \<and> tests_for (PDF_TESTS ex_state) (JStr ''A'') = [test_a1, test_a2]
   \<and> loadable ex_loads ex_lines
   \<and> load_dataset ex_loads (Some ex_lines)
       = Inr ((PDF_TESTS ex_state, ALL_PDFS ex_state), [warning (str ''not json'')])
   \<and> list_all (round_trips ex_loads ex_dumps) (accepted ex_loads ex_lines)
   \<and> update_test ex_dumps (JStr ''A'') (JStr ''t1'') ''text'' (JStr ''Revenue'') ex_state
       = Inr (ex_state, [line_a1 @ newline, line_a2 @ newline, line_b1 @ newline], ''success'')
   \<and> mset (records_of ex_loads [line_a1 @ newline, line_a2 @ newline, line_b1 @ newline])
       = {#test_a1, test_b1, test_a2#}"
proof -
  have h: "hashable (JStr ''A'')" by simp
  have n: "\<forall>t\<in>set (tests_for (PDF_TESTS ex_state) (JStr ''A'')).
             \<not> py_eq (py_get t ''id'') (JStr ''t1'')"
    by (simp add: ex_state_def ex_index_def tests_for_def ex_ids)
  have t: "tests_for (PDF_TESTS ex_state) (JStr ''A'') = [test_a1, test_a2]"
    by (simp add: ex_state_def ex_index_def tests_for_def)
  have rt: "list_all (round_trips ex_loads ex_dumps) (accepted ex_loads ex_lines)"
    by (simp add: ex_lines_loaded ex_round_trips)
  have w: "map (\<lambda>test. ex_dumps test @ newline) (concat (map snd (PDF_TESTS ex_state)))
             = [line_a1 @ newline, line_a2 @ newline, line_b1 @ newline]"
    by (simp add: ex_state_def ex_index_def ex_dumps_simps)
  from update_test_no_match[OF h n, of ex_dumps "''text''" "JStr ''Revenue''" ex_loads]
  have "update_test ex_dumps (JStr ''A'') (JStr ''t1'') ''text'' (JStr ''Revenue'') ex_state
          = Inr (ex_state, [line_a1 @ newline, line_a2 @ newline, line_b1 @ newline], ''success'')"
    and "mset (records_of ex_loads [line_a1 @ newline, line_a2 @ newline, line_b1 @ newline])
          = mset (accepted ex_loads ex_lines)"
    unfolding w using ex_lines_loaded(1,4) rt by blast+
  then show ?thesis using h t rt ex_lines_loaded by simp
qed

text \<open>
  A request that matches nothing rewrites the file: the line that is not JSON, the blank
  line and the record with an empty \<^verbatim>\<open>pdf\<close> are gone, and the records of \<^verbatim>\<open>A\<close> come
  together. A \<^verbatim>\<open>pdf\<close> that is a list raises \<^verbatim>\<open>TypeError\<close>.
\<close>

theorem no_match_rewrites_file:
  "load_dataset ex_loads (Some ex_lines)
     = Inr ((PDF_TESTS ex_state, ALL_PDFS ex_state), [warning (str ''not json'')])
   \<and> update_test ex_dumps (JStr ''A'') (JStr ''t1'') ''text'' (JStr ''Revenue'') ex_state
       = Inr (ex_state, [line_a1 @ newline, line_a2 @ newline, line_b1 @ newline], ''success'')
   \<and> [line_a1 @ newline, line_a2 @ newline, line_b1 @ newline] \<noteq> ex_lines
   \<and> records_of ex_loads ex_lines = [test_a1, test_empty_pdf, test_b1, test_a2]
   \<and> records_of ex_loads [line_a1 @ newline, line_a2 @ newline, line_b1 @ newline]
       = [test_a1, test_a2, test_b1]
   \<and> update_test ex_dumps (JArr [JStr ''A'']) (JStr ''t1'') ''text'' (JStr ''Revenue'') ex_state
       = Inl TypeError"
proof -
  have u: "update_test ex_dumps (JStr ''A'') (JStr ''t1'') ''text'' (JStr ''Revenue'') ex_state
       = Inr (ex_state, [line_a1 @ newline, line_a2 @ newline, line_b1 @ newline], ''success'')"
    by (simp add: update_test_def Let_def save_dataset_def all_tests_def ex_state_def
        ex_index_def ex_ids ex_dumps_simps)
  have d: "[line_a1 @ newline, line_a2 @ newline, line_b1 @ newline] \<noteq> ex_lines"
    by (simp add: ex_lines_def)
  have r: "records_of ex_loads [line_a1 @ newline, line_a2 @ newline, line_b1 @ newline]
       = [test_a1, test_a2, test_b1]"
    by (simp add: ex_strips ex_loads_simps ex_lines_nonempty)
  have e: "update_test ex_dumps (JArr [JStr ''A'']) (JStr ''t1'') ''text'' (JStr ''Revenue'') ex_state
       = Inl TypeError"
    by (simp add: update_test_def)
  from u d r e ex_lines_loaded(3,4) show ?thesis by simp
qed

subsection \<open>Edits and the invariants\<close>

lemma map_of_py_setitem:
  "map_of (py_setitem d k v) k' = (if k' = k then Some v else map_of d k')"
  by (induction d) auto

lemma py_get_py_setitem:
  "py_get (py_setitem d k v) k' = (if k' = k then v else py_get d k')"
  by (simp add: py_get_def map_of_py_setitem)

lemma update_index_keys:
  "map fst (update_index idx pdf_name test_id field v) = map fst idx"
  by (induction idx) auto

lemma update_first_owned:
  "field \<noteq> ''pdf'' \<Longrightarrow> list_all (\<lambda>t. py_eq k (py_get t ''pdf'')) ts
   \<Longrightarrow> list_all (\<lambda>t. py_eq k (py_get t ''pdf'')) (update_first test_id field v ts)"
  by (induction ts) (auto simp: py_get_py_setitem)

lemma update_index_owned:
  "field \<noteq> ''pdf'' \<Longrightarrow> tests_owned idx
   \<Longrightarrow> tests_owned (update_index idx pdf_name test_id field v)"
  by (induction idx) (auto simp: tests_owned_def update_first_owned)

lemma tests_for_update_index:
  "tests_for (update_index idx pdf_name test_id field v) pdf_name
     = update_first test_id field v (tests_for idx pdf_name)"
  by (simp add: tests_for_def dict_find_update_index split: option.splits)

lemma find_update_first:
  "field \<noteq> ''id'' \<Longrightarrow> find (\<lambda>t. py_eq (py_get t ''id'') test_id) ts = Some t
   \<Longrightarrow> find (\<lambda>t. py_eq (py_get t ''id'') test_id) (update_first test_id field v ts)
         = Some (py_setitem t field v)"
  by (induction ts) (auto simp: py_get_py_setitem)

lemma tests_for_hashable:
  "list_all hashable (map fst idx) \<Longrightarrow> tests_for idx k \<noteq> [] \<Longrightarrow> hashable k"
proof -
  assume h: "list_all hashable (map fst idx)" and n: "tests_for idx k \<noteq> []"
  then have "dict_find idx k \<noteq> None" by (cases "dict_find idx k") (auto simp: tests_for_def)
  then have "py_in k (map fst idx)" by (simp add: dict_find_None)
  then obtain k0 where "k0 \<in> set (map fst idx)" "py_eq k0 k" by (auto simp: py_in_iff)
  with h show ?thesis using py_eq_hashable[of k0 k] by (auto simp: list_all_iff)
qed

subsection \<open>An edit survives a reload\<close>

text \<open>
  Claim C3. On an index as \<^verbatim>\<open>load_dataset\<close> builds it, when a test matches the document
  name and the \<^verbatim>\<open>id\<close> of the request and the field is neither \<^verbatim>\<open>pdf\<close> nor \<^verbatim>\<open>id\<close>,
  \<^verbatim>\<open>update_test\<close> succeeds, and loading the lines it saved and looking the same name and
  \<^verbatim>\<open>id\<close> up finds a test whose field has the new value.
\<close>

theorem edit_durable:
  assumes inv: "index_ok s" "tests_owned (PDF_TESTS s)"
    and m: "find_test (PDF_TESTS s) pdf_name test_id = Some t"
    and f: "field \<noteq> ''pdf''" "field \<noteq> ''id''"
    and rt: "list_all (round_trips loads dumps)
               (all_tests (update_index (PDF_TESTS s) pdf_name test_id field v))"
  shows "\<exists>s' out pdf_tests all_pdfs ws t'.
           update_test dumps pdf_name test_id field v s = Inr (s', out, ''success'')
           \<and> load_dataset loads (Some out) = Inr ((pdf_tests, all_pdfs), ws)
           \<and> find_test pdf_tests pdf_name test_id = Some t'
           \<and> py_get t' field = v"
proof -
  let ?idx = "PDF_TESTS s"
  let ?idx' = "update_index ?idx pdf_name test_id field v"
  let ?s' = "s\<lparr>PDF_TESTS := ?idx'\<rparr>"
  let ?out = "save_dataset dumps ?s'"
  let ?new = "add_all [] (all_tests ?idx')"
  from inv(1) have ok: "keys_ok (map fst ?idx)" unfolding index_ok_def by metis
  have ne: "tests_for ?idx pdf_name \<noteq> []" using m by (auto simp: find_test_def)
  have hp: "hashable pdf_name"
    using tests_for_hashable[OF keys_ok_hashable[OF ok] ne] .
  have upd: "update_test dumps pdf_name test_id field v s = Inr (?s', ?out, ''success'')"
    using hp by (simp add: update_test_def Let_def)
  have ok': "keys_ok (map fst ?idx')" using ok by (simp add: update_index_keys)
  have own': "tests_owned ?idx'" using update_index_owned[OF f(1) inv(2)] .
  have pdfs: "\<forall>t\<in>set (all_tests ?idx'). truthy (py_get t ''pdf'') \<and> hashable (py_get t ''pdf'')"
    using owned_pdf[OF ok' own'] by blast
  have out: "?out = map (\<lambda>t. dumps t @ newline) (all_tests ?idx')"
    by (simp add: save_dataset_def)
  have wf: "well_formed loads ?out" unfolding out by (rule dumps_well_formed[OF rt pdfs])
  have recs: "accepted loads ?out = all_tests ?idx'"
    using well_formed_accepted[OF wf] records_of_dumps[OF rt] out by simp
  have ld: "load_dataset loads (Some ?out) = Inr ((?new, map fst ?new), parse_warnings loads ?out)"
    using load_dataset_add_all[OF well_formed_loadable[OF wf]] recs by simp
  have "tests_for ?new pdf_name = tests_for ?idx' pdf_name"
    using reload_tests_for[OF pdfs, of pdf_name] filter_all_tests[OF ok' own', of pdf_name] by simp
  then have "find_test ?new pdf_name test_id = Some (py_setitem t field v)"
    using find_update_first[OF f(2)] m by (simp add: find_test_def tests_for_update_index)
  moreover have "py_get (py_setitem t field v) field = v" by (simp add: py_get_py_setitem)
  ultimately show ?thesis using upd ld by blast
qed

theorem edit_durable_witness:
  "index_ok ex_state \<and> tests_owned (PDF_TESTS ex_state)
   \<and> find_test (PDF_TESTS ex_state) (JStr ''A'') (JStr ''a1'') = Some test_a1
   \<and> list_all (round_trips ex_loads ex_dumps)
        (all_tests (update_index (PDF_TESTS ex_state) (JStr ''A'') (JStr ''a1'')
           ''checked'' (JStr ''verified'')))
   \<and> (\<exists>s' out pdf_tests all_pdfs ws t'.
         update_test ex_dumps (JStr ''A'') (JStr ''a1'') ''checked'' (JStr ''verified'') ex_state
           = Inr (s', out, ''success'')
         \<and> load_dataset ex_loads (Some out) = Inr ((pdf_tests, all_pdfs), ws)
         \<and> find_test pdf_tests (JStr ''A'') (JStr ''a1'') = Some t'
         \<and> py_get t' ''checked'' = JStr ''verified'')"
proof -
  have m: "find_test (PDF_TESTS ex_state) (JStr ''A'') (JStr ''a1'') = Some test_a1"
    by (simp add: find_test_def tests_for_def ex_state_def ex_index_def ex_ids)
  have f: "''checked'' \<noteq> ''pdf''" "''checked'' \<noteq> ''id''" by simp_all
  have rt: "list_all (round_trips ex_loads ex_dumps)
        (all_tests (update_index (PDF_TESTS ex_state) (JStr ''A'') (JStr ''a1'')
           ''checked'' (JStr ''verified'')))"
    by (simp add: ex_state_def ex_updates all_tests_def ex_round_trips)
  from edit_durable[OF ex_state_ok m f rt] ex_state_ok m rt show ?thesis by blast
qed

text \<open>
  After an edit of \<^verbatim>\<open>pdf\<close>, or of \<^verbatim>\<open>id\<close>, the reloaded index has no test under the
  name and \<^verbatim>\<open>id\<close> of the request.
\<close>

theorem edit_of_pdf_or_id_not_found:
  "find_test (PDF_TESTS ex_state) (JStr ''A'') (JStr ''a1'') = Some test_a1
   \<and> update_test ex_dumps (JStr ''A'') (JStr ''a1'') ''pdf'' (JStr ''B'') ex_state
       = Inr (ex_state\<lparr>PDF_TESTS := [(JStr ''A'', [test_a1_moved, test_a2]), (JStr ''B'', [test_b1])]\<rparr>,
              [line_a1_moved @ newline, line_a2 @ newline, line_b1 @ newline], ''success'')
   \<and> load_dataset ex_loads (Some [line_a1_moved @ newline, line_a2 @ newline, line_b1 @ newline])
       = Inr (([(JStr ''B'', [test_a1_moved, test_b1]), (JStr ''A'', [test_a2])],
               [JStr ''B'', JStr ''A'']), [])
   \<and> find_test [(JStr ''B'', [test_a1_moved, test_b1]), (JStr ''A'', [test_a2])]
         (JStr ''A'') (JStr ''a1'') = None
   \<and> update_test ex_dumps (JStr ''A'') (JStr ''a1'') ''id'' (JStr ''zz'') ex_state
       = Inr (ex_state\<lparr>PDF_TESTS := [(JStr ''A'', [test_a1_renamed, test_a2]), (JStr ''B'', [test_b1])]\<rparr>,
              [line_a1_renamed @ newline, line_a2 @ newline, line_b1 @ newline], ''success'')
   \<and> load_dataset ex_loads (Some [line_a1_renamed @ newline, line_a2 @ newline, line_b1 @ newline])
       = Inr (([(JStr ''A'', [test_a1_renamed, test_a2]), (JStr ''B'', [test_b1])],
               [JStr ''A'', JStr ''B'']), [])
   \<and> find_test [(JStr ''A'', [test_a1_renamed, test_a2]), (JStr ''B'', [test_b1])]
         (JStr ''A'') (JStr ''a1'') = None"
proof -
  have m: "find_test (PDF_TESTS ex_state) (JStr ''A'') (JStr ''a1'') = Some test_a1"
    by (simp add: find_test_def tests_for_def ex_state_def ex_index_def ex_ids)
  have u1: "update_test ex_dumps (JStr ''A'') (JStr ''a1'') ''pdf'' (JStr ''B'') ex_state
       = Inr (ex_state\<lparr>PDF_TESTS := [(JStr ''A'', [test_a1_moved, test_a2]), (JStr ''B'', [test_b1])]\<rparr>,
              [line_a1_moved @ newline, line_a2 @ newline, line_b1 @ newline], ''success'')"
    by (simp add: update_test_def Let_def save_dataset_def all_tests_def ex_state_def
        ex_updates ex_dumps_simps)
  have u2: "update_test ex_dumps (JStr ''A'') (JStr ''a1'') ''id'' (JStr ''zz'') ex_state
       = Inr (ex_state\<lparr>PDF_TESTS := [(JStr ''A'', [test_a1_renamed, test_a2]), (JStr ''B'', [test_b1])]\<rparr>,
              [line_a1_renamed @ newline, line_a2 @ newline, line_b1 @ newline], ''success'')"
    by (simp add: update_test_def Let_def save_dataset_def all_tests_def ex_state_def
        ex_updates ex_dumps_simps)
  have l1: "load_dataset ex_loads (Some [line_a1_moved @ newline, line_a2 @ newline, line_b1 @ newline])
       = Inr (([(JStr ''B'', [test_a1_moved, test_b1]), (JStr ''A'', [test_a2])],
               [JStr ''B'', JStr ''A'']), [])"
    by (simp add: load_dataset_def ex_strips ex_loads_simps ex_lines_nonempty ex_pdfs)
  have l2: "load_dataset ex_loads (Some [line_a1_renamed @ newline, line_a2 @ newline, line_b1 @ newline])
       = Inr (([(JStr ''A'', [test_a1_renamed, test_a2]), (JStr ''B'', [test_b1])],
               [JStr ''A'', JStr ''B'']), [])"
    by (simp add: load_dataset_def ex_strips ex_loads_simps ex_lines_nonempty ex_pdfs)
  have f1: "find_test [(JStr ''B'', [test_a1_moved, test_b1]), (JStr ''A'', [test_a2])]
         (JStr ''A'') (JStr ''a1'') = None"
    by (simp add: find_test_def tests_for_def ex_ids)
  have f2: "find_test [(JStr ''A'', [test_a1_renamed, test_a2]), (JStr ''B'', [test_b1])]
         (JStr ''A'') (JStr ''a1'') = None"
    by (simp add: find_test_def tests_for_def ex_ids)
  from m u1 u2 l1 l2 f1 f2 show ?thesis by simp
qed

subsection \<open>Where the temporary file goes\<close>

text \<open>
  Claim C1. With the dataset on another file system than the temporary directory,
  \<^verbatim>\<open>save_dataset\<close> creates its temporary file in the temporary directory, not beside
  \<^verbatim>\<open>jsonl_file\<close>, and \<^verbatim>\<open>shutil.move\<close> does not rename: it copies onto \<^verbatim>\<open>jsonl_file\<close> and
  removes the temporary file.
\<close>

theorem save_dataset_copies_onto_target:
  "save_dataset_files ex_env ex_dumps ex_state ex_jsonl_file =
     [Create ''/tmp/tmpq7x2k9'',
      Write_lines ''/tmp/tmpq7x2k9'' [line_a1 @ newline, line_a2 @ newline, line_b1 @ newline],
      Copy_onto ''/tmp/tmpq7x2k9'' ''/data/bench/table_tests.jsonl'',
      Remove ''/tmp/tmpq7x2k9'']"
  by (simp add: save_dataset_files_def shutil_move_def ex_env_def ex_jsonl_file_def
      save_dataset_def all_tests_def ex_state_def ex_index_def ex_dumps_simps)

end
